theory Spec2Isabelle
  imports Complex_Main "HOL-Library.Monad_Syntax"
begin

section \<open>Basic values: strings, timestamps, configuration\<close>

text \<open>
  Python floats are modelled as \<^typ>\<open>real\<close>, Python ints as \<^typ>\<open>int\<close>, strings as
  \<^typ>\<open>string\<close> with ASCII case mapping. A naive \<open>datetime\<close> is the number of
  microseconds since a midnight of the naive calendar, so that \<open>timedelta.days\<close> is a
  floor division and \<open>.hour\<close> a remainder.
\<close>

type_synonym datetime = int

definition us_per_day :: int where
  "us_per_day = 86400000000"

definition us_per_hour :: int where
  "us_per_hour = 3600000000"

definition delta_days :: "datetime \<Rightarrow> datetime \<Rightarrow> int" where
  \<comment> \<open>\<open>(a - b).days\<close>\<close>
  "delta_days a b = (a - b) div us_per_day"

definition midnight :: "datetime \<Rightarrow> datetime" where
  \<comment> \<open>\<open>t.replace(hour=0, minute=0, second=0, microsecond=0)\<close>\<close>
  "midnight t = t - t mod us_per_day"

definition hour_of :: "datetime \<Rightarrow> int" where
  "hour_of t = (t mod us_per_day) div us_per_hour"

definition lower_char :: "char \<Rightarrow> char" where
  "lower_char c = (let n = (of_char c :: nat) in
     if 65 \<le> n \<and> n \<le> 90 then char_of (n + 32) else c)"

definition upper_char :: "char \<Rightarrow> char" where
  "upper_char c = (let n = (of_char c :: nat) in
     if 97 \<le> n \<and> n \<le> 122 then char_of (n - 32) else c)"

definition lower :: "string \<Rightarrow> string" where
  "lower s = map lower_char s"

definition capitalize :: "string \<Rightarrow> string" where
  "capitalize s = (case s of [] \<Rightarrow> [] | c # cs \<Rightarrow> upper_char c # lower cs)"

fun is_prefix :: "string \<Rightarrow> string \<Rightarrow> bool" where
  "is_prefix [] ys = True"
| "is_prefix (x # xs) [] = False"
| "is_prefix (x # xs) (y # ys) = (x = y \<and> is_prefix xs ys)"

fun contains :: "string \<Rightarrow> string \<Rightarrow> bool" where
  \<comment> \<open>\<open>contains p s\<close> is Python's \<open>p in s\<close> on strings\<close>
  "contains p [] = (p = [])"
| "contains p (y # ys) = (is_prefix p (y # ys) \<or> contains p ys)"

definition has_at :: "string \<Rightarrow> bool" where
  \<comment> \<open>\<open>'@' in s\<close>\<close>
  "has_at s = (CHR ''@'' \<in> set s)"

fun split_on :: "(char \<Rightarrow> bool) \<Rightarrow> string \<Rightarrow> string list" where
  \<comment> \<open>\<open>re.split\<close> on one separator character of a class: empty pieces are kept\<close>
  "split_on sep [] = [[]]"
| "split_on sep (c # cs) =
     (if sep c then [] # split_on sep cs
      else (case split_on sep cs of [] \<Rightarrow> [[c]] | p # ps \<Rightarrow> (c # p) # ps))"

type_synonym config = "string \<rightharpoonup> real"

definition cfg_get :: "config \<Rightarrow> string \<Rightarrow> real \<Rightarrow> real" where
  \<comment> \<open>\<open>config.get(key, default)\<close>\<close>
  "cfg_get cfg k d = (case cfg k of None \<Rightarrow> d | Some v \<Rightarrow> v)"

section \<open>Scoring engine (scorer.py)\<close>

record content_analysis =
  category :: string
  urgency :: string
  action_items :: "string list"
  topics :: "string list"

record recipient_info =
  me_address :: "string option"   \<comment> \<open>\<open>None\<close>: no session, or reading the current user raised\<close>
  to_field :: string
  cc_field :: string
  recipient_count :: "int option" \<comment> \<open>\<open>None\<close>: no \<open>Recipients\<close>, or reading the count raised\<close>

record email =
  sender :: string
  subject :: string
  received_time :: "datetime option"
  conversation_id :: "string option"
  analysis :: content_analysis
  entry_id :: "string option"
  unread :: bool
  flag_status :: int
  flag_due_by :: "datetime option"
  importance :: int
  recipients :: recipient_info

datatype mail_item = Unreadable | Readable email
  \<comment> \<open>\<open>Unreadable\<close>: reading the item's properties raises (a COM error)\<close>

record track_record =
  t_subject :: "string option"
  t_sender :: string                 \<comment> \<open>the normalized sender\<close>
  t_raw_sender :: string
  t_sender_name :: "string option"   \<comment> \<open>\<open>None\<close> is Python's \<open>None\<close>\<close>
  t_sender_email :: "string option"
  t_received_time :: "datetime option"
  t_last_modified :: "datetime option"
  t_folder_path :: "string option"
  is_currently_read :: bool
  check_count :: int
  t_last_checked :: datetime

record components =
  sender_score :: real
  topic_score :: real
  temporal_score :: real
  message_state_score :: real
  recipient_score :: real

record score_data =
  final_score :: real
  comps :: components
  meta :: email

fun after_last_at :: "string \<Rightarrow> string" where
  \<comment> \<open>\<open>s.split('@')[-1]\<close>\<close>
  "after_last_at s = last (split_on (\<lambda>c. c = CHR ''@'') s)"

fun before_first_gt :: "string \<Rightarrow> string" where
  \<comment> \<open>\<open>s.split('>')[0]\<close>\<close>
  "before_first_gt s = takeWhile (\<lambda>c. c \<noteq> CHR ''>'') s"

definition domain_of :: "string \<Rightarrow> string" where
  "domain_of s = lower (before_first_gt (after_last_at s))"

definition mean :: "real list \<Rightarrow> real" where
  \<comment> \<open>\<open>np.mean\<close>, only used on non-empty lists\<close>
  "mean xs = sum_list xs / real (length xs)"

definition base_sender_score :: "(string \<times> real) list \<Rightarrow> string \<Rightarrow> real" where
  "base_sender_score sender_scores s =
     (case map_of sender_scores s of
        Some v \<Rightarrow> v
      | None \<Rightarrow>
          if has_at s then
            (let sd = domain_of s;
                 ds = map snd (filter (\<lambda>(k, v). has_at k \<and> domain_of k \<noteq> [] \<and> sd \<noteq> []
                                                  \<and> domain_of k = sd) sender_scores)
             in if ds \<noteq> [] then mean ds else 0.5)
          else 0.5)"

definition reopen_bonus :: "(string \<rightharpoonup> real) \<Rightarrow> string \<Rightarrow> real" where
  "reopen_bonus ratios s =
     (case ratios s of
        None \<Rightarrow> 0
      | Some r \<Rightarrow> if r > 0.5 then 0.2 else if r > 0.2 then 0.1 else 0)"

definition category_priority :: "string \<Rightarrow> real" where
  "category_priority c =
     (if c = ''personal'' then 0.8 else if c = ''professional'' then 0.7
      else if c = ''transactional'' then 0.6 else if c = ''general'' then 0.5
      else if c = ''newsletter'' then 0.3 else if c = ''promotional'' then 0.2 else 0.5)"

definition urgency_score_of :: "content_analysis \<Rightarrow> real" where
  "urgency_score_of ca =
     (let u = urgency ca;
          b = (if u = ''high'' then 0.9 else if u = ''urgent'' then 0.95
               else if u = ''medium'' then 0.6 else if u = ''low'' then 0.3 else 0.5)
      in if action_items ca \<noteq> [] then min 1 (b + 0.1) else b)"

definition recency_of_age :: "int \<Rightarrow> real" where
  "recency_of_age d =
     (if d \<le> 1 then 0.95 else if d \<le> 3 then 0.85 else if d \<le> 7 then 0.75
      else if d \<le> 14 then 0.65 else if d \<le> 30 then 0.5
      else max 0.1 (0.5 - real_of_int d / 365))"

definition temporal_score_of :: "config \<Rightarrow> datetime \<Rightarrow> email \<Rightarrow> real" where
  "temporal_score_of cfg now e =
     (let rt = (case received_time e of None \<Rightarrow> now | Some t \<Rightarrow> t);
          r0 = recency_of_age (delta_days now rt);
          r1 = (if conversation_id e \<noteq> None \<and> conversation_id e \<noteq> Some [] then min 1 (r0 + 0.05) else r0);
          h = hour_of rt;
          r2 = (if h < 8 \<or> h \<ge> 18 then min 1 (r1 + cfg_get cfg ''off_hours_bonus'' 0.05) else r1)
      in 0.4 * r2 + 0.6 * urgency_score_of (analysis e))"

definition ignore_penalty_of :: "config \<Rightarrow> (string \<rightharpoonup> track_record) \<Rightarrow> email \<Rightarrow> real" where
  "ignore_penalty_of cfg tracking e =
     (case entry_id e of
        None \<Rightarrow> 0
      | Some i \<Rightarrow>
          if i = [] then 0 else
          (case tracking i of
             None \<Rightarrow> 0
           | Some tr \<Rightarrow>
               if \<not> is_currently_read tr \<and> check_count tr > 1
               then min 0.4 (cfg_get cfg ''ignore_penalty'' 0.15 * real_of_int (check_count tr - 1))
               else 0))"

definition due_bonus_of :: "config \<Rightarrow> datetime \<Rightarrow> email \<Rightarrow> real" where
  "due_bonus_of cfg now e =
     (case flag_due_by e of
        None \<Rightarrow> 0
      | Some due \<Rightarrow>
          (let d = delta_days (midnight due) (midnight now)
           in if d \<le> 0 then cfg_get cfg ''due_today_bonus'' 0.25
              else if d \<le> 2 then cfg_get cfg ''due_soon_bonus'' 0.15 else 0))"

definition message_state_score_of ::
  "config \<Rightarrow> datetime \<Rightarrow> (string \<rightharpoonup> track_record) \<Rightarrow> email \<Rightarrow> real" where
  "message_state_score_of cfg now tracking e =
     (let s0 = (if unread e
                then 0.5 - cfg_get cfg ''unread_penalty'' 0.2 - ignore_penalty_of cfg tracking e
                else 0.5 + cfg_get cfg ''read_kept_bonus'' 0.3);
          s1 = (if flag_status e = 2
                then s0 + cfg_get cfg ''flagged_bonus'' 0.15 + due_bonus_of cfg now e else s0)
      in if importance e = 2 then s1 + cfg_get cfg ''high_importance_bonus'' 0.2 else s1)"

definition recipient_score_of :: "config \<Rightarrow> email \<Rightarrow> real" where
  "recipient_score_of cfg e =
     (let ri = recipients e in
      case me_address ri of
        None \<Rightarrow> 0.5
      | Some me0 \<Rightarrow>
          (let me = lower me0 in
           if me = [] then 0.5
           else if contains me (lower (to_field ri)) then
             (let s = 0.5 + cfg_get cfg ''to_me_bonus'' 0.15 in
              case recipient_count ri of
                None \<Rightarrow> s
              | Some n \<Rightarrow>
                  if n \<le> 3 then s + cfg_get cfg ''direct_to_me_bonus'' 0.1
                  else if n > 10 then s - cfg_get cfg ''many_recipients_penalty'' 0.1
                  else s)
           else if contains me (lower (cc_field ri)) then 0.5 - cfg_get cfg ''cc_me_penalty'' 0.05
           else 0.5))"

definition score_components ::
  "(string \<times> real) list \<Rightarrow> (string \<rightharpoonup> real) \<Rightarrow> config \<Rightarrow> datetime
     \<Rightarrow> (string \<rightharpoonup> track_record) \<Rightarrow> email \<Rightarrow> components" where
  "score_components sender_scores ratios cfg now tracking e =
     \<lparr> sender_score = min 1 (base_sender_score sender_scores (sender e) + reopen_bonus ratios (sender e)),
       topic_score = category_priority (category (analysis e)),
       temporal_score = temporal_score_of cfg now e,
       message_state_score = message_state_score_of cfg now tracking e,
       recipient_score = recipient_score_of cfg e \<rparr>"

definition raw_weights :: "config \<Rightarrow> real list" where
  "raw_weights cfg =
     [cfg_get cfg ''sender_weight'' 0.4, cfg_get cfg ''topic_weight'' 0.25,
      cfg_get cfg ''temporal_weight'' 0.15, cfg_get cfg ''message_state_weight'' 0.1,
      cfg_get cfg ''recipient_weight'' 0.1]"

definition normalized_weights :: "config \<Rightarrow> real list option" where
  \<comment> \<open>\<open>None\<close>: \<open>1.0 / total_weight\<close> raises ZeroDivisionError\<close>
  "normalized_weights cfg =
     (let ws = raw_weights cfg; total = sum_list ws
      in if total \<noteq> 1 then
           (if total = 0 then None else Some (map (\<lambda>w. w * (1 / total)) ws))
         else Some ws)"

definition weighted_sum :: "real list \<Rightarrow> components \<Rightarrow> real" where
  "weighted_sum ws c =
     sum_list (map2 (*) ws
       [sender_score c, topic_score c, temporal_score c, message_state_score c, recipient_score c])"

definition clamp01 :: "real \<Rightarrow> real" where
  "clamp01 x = max 0 (min 1 x)"

definition score_email ::
  "mail_item \<Rightarrow> (string \<times> real) list \<Rightarrow> (string \<rightharpoonup> real) \<Rightarrow> config \<Rightarrow> datetime
     \<Rightarrow> (string \<rightharpoonup> track_record) \<Rightarrow> score_data option" where
  "score_email item sender_scores ratios cfg now tracking =
     (case item of
        Unreadable \<Rightarrow> None
      | Readable e \<Rightarrow>
          (let c = score_components sender_scores ratios cfg now tracking e in
           case normalized_weights cfg of
             None \<Rightarrow> None
           | Some ws \<Rightarrow> Some \<lparr> final_score = clamp01 (weighted_sum ws c), comps = c, meta = e \<rparr>))"

subsection \<open>Recommendation\<close>

datatype llm_reply = LlmRaises | LlmReturns string
  \<comment> \<open>outcome of \<open>llm.generate_folder_name\<close>; a reply that is no string counts as \<open>LlmReturns []\<close>\<close>

record recommendation =
  folder :: string
  flag :: bool
  create_task :: bool
  auto_archive :: bool
  score :: real

definition sanitize :: "string \<Rightarrow> string" where
  \<comment> \<open>replace each of the characters \<open>< > : / | ? *\<close>, the double quote and the backslash by an
      underscore, then keep the first 50 characters\<close>
  "sanitize s = take 50 (map (\<lambda>c. if c \<in> set ''<>:/|?*'' \<or> c = CHR 0x22 \<or> c = CHR 0x5C
                                   then CHR ''_'' else c) s)"

definition is_due_today :: "datetime \<Rightarrow> email \<Rightarrow> bool" where
  "is_due_today now e =
     (case flag_due_by e of
        None \<Rightarrow> False
      | Some due \<Rightarrow> delta_days (midnight due) (midnight now) \<le> 0)"

definition rule_due :: "datetime \<Rightarrow> email \<Rightarrow> recommendation \<Rightarrow> recommendation" where
  "rule_due now e r =
     (if is_due_today now e
      then r\<lparr> folder := ''Due Today'', flag := True, create_task := True \<rparr> else r)"

definition rule_importance :: "config \<Rightarrow> datetime \<Rightarrow> email \<Rightarrow> recommendation \<Rightarrow> recommendation" where
  "rule_importance cfg now e r =
     (if \<not> is_due_today now e \<and> importance e = 2
      then r\<lparr> folder := (if score r \<ge> cfg_get cfg ''high_priority_threshold'' 0.7
                          then ''High Priority'' else ''Important''),
              flag := True \<rparr>
      else r)"

definition rule_priority :: "config \<Rightarrow> datetime \<Rightarrow> email \<Rightarrow> recommendation \<Rightarrow> recommendation" where
  "rule_priority cfg now e r =
     (if \<not> is_due_today now e \<and> folder r \<notin> set [''High Priority'', ''Important'', ''Due Today'']
      then (if score r \<ge> cfg_get cfg ''high_priority_threshold'' 0.8
            then r\<lparr> folder := ''High Priority'', flag := True, create_task := True \<rparr>
            else if score r \<ge> cfg_get cfg ''medium_priority_threshold'' 0.5
            then r\<lparr> folder := ''Medium Priority'', flag := True \<rparr>
            else r)
      else r)"

definition llm_folder :: "llm_reply \<Rightarrow> content_analysis \<Rightarrow> string" where
  "llm_folder reply ca =
     (case reply of
        LlmRaises \<Rightarrow> capitalize (category ca)
      | LlmReturns s \<Rightarrow>
          if s \<noteq> [] \<and> s \<noteq> ''Miscellaneous''
          then capitalize (category ca) @ ''/'' @ sanitize s
          else (case topics ca of
                  t # _ \<Rightarrow> capitalize (category ca) @ ''/'' @ sanitize (capitalize t)
                | [] \<Rightarrow> capitalize (category ca)))"

definition rule_category ::
  "config \<Rightarrow> llm_reply option \<Rightarrow> content_analysis \<Rightarrow> recommendation \<Rightarrow> recommendation" where
  "rule_category cfg llm ca r =
     (if folder r \<in> set [''General''] then
        (if category ca \<in> set [''promotional'', ''newsletter''] then
           (if score r < 0.3
            then r\<lparr> folder := ''Archive/'' @ capitalize (category ca), auto_archive := True \<rparr>
            else r\<lparr> folder := capitalize (category ca) \<rparr>)
         else if category ca \<in> set [''personal'', ''professional'']
                 \<and> cfg_get cfg ''use_llm_for_content'' 1 \<noteq> 0 \<and> llm \<noteq> None
         then r\<lparr> folder := llm_folder (the llm) ca \<rparr>
         else r\<lparr> folder := capitalize (category ca) \<rparr>)
      else r)"

definition rule_action_items :: "content_analysis \<Rightarrow> recommendation \<Rightarrow> recommendation" where
  "rule_action_items ca r =
     (if action_items ca \<noteq> [] then
        (let r1 = r\<lparr> create_task := True \<rparr> in
         if folder r1 \<notin> set [''High Priority'', ''Medium Priority'', ''Due Today'', ''Important''] then
           (if auto_archive r1 then r1\<lparr> auto_archive := False, folder := ''Action Required'' \<rparr>
            else if folder r1 \<in> set [''General'', ''Newsletter'', ''Promotional'', ''Transactional'']
            then r1\<lparr> folder := ''Action Required'' \<rparr>
            else r1)
         else r1)
      else r)"

definition recommend_from ::
  "config \<Rightarrow> datetime \<Rightarrow> llm_reply option \<Rightarrow> score_data \<Rightarrow> recommendation" where
  "recommend_from cfg now llm sd =
     (let e = meta sd; ca = analysis e;
          r0 = \<lparr> folder = ''General'', flag = False, create_task = False, auto_archive = False,
                 score = final_score sd \<rparr>
      in rule_action_items ca
           (rule_category cfg llm ca
              (rule_priority cfg now e (rule_importance cfg now e (rule_due now e r0)))))"

definition recommend_action ::
  "mail_item \<Rightarrow> (string \<times> real) list \<Rightarrow> (string \<rightharpoonup> real) \<Rightarrow> config \<Rightarrow> datetime
     \<Rightarrow> llm_reply option \<Rightarrow> (string \<rightharpoonup> track_record) \<Rightarrow> recommendation option" where
  "recommend_action item sender_scores ratios cfg now llm tracking =
     (case score_email item sender_scores ratios cfg now tracking of
        None \<Rightarrow> None
      | Some sd \<Rightarrow> Some (recommend_from cfg now llm sd))"

subsection \<open>Example inputs of the scoring engine\<close>

definition boss_mail :: email where
  "boss_mail =
     \<lparr> sender = ''boss@example.com'', subject = ''Budget'',
       received_time = Some (10 * us_per_hour), conversation_id = None,
       analysis = \<lparr> category = ''personal'', urgency = ''medium'', action_items = [],
                    topics = [] \<rparr>,
       entry_id = Some ''E1'', unread = False, flag_status = 0, flag_due_by = None,
       importance = 2,
       recipients = \<lparr> me_address = None, to_field = [], cc_field = [],
                      recipient_count = None \<rparr> \<rparr>"

definition heavy_state_cfg :: config where
  "heavy_state_cfg = [''message_state_weight'' \<mapsto> 2, ''read_kept_bonus'' \<mapsto> 1]"

definition plain_mail :: email where
  "plain_mail =
     \<lparr> sender = ''someone'', subject = ''Hello'',
       received_time = Some (10 * us_per_hour), conversation_id = None,
       analysis = \<lparr> category = ''general'', urgency = ''medium'', action_items = [],
                    topics = [] \<rparr>,
       entry_id = Some ''E2'', unread = False, flag_status = 0, flag_due_by = None,
       importance = 1,
       recipients = \<lparr> me_address = None, to_field = [], cc_field = [],
                      recipient_count = None \<rparr> \<rparr>"

definition promo_mail :: "string list \<Rightarrow> email" where
  "promo_mail items =
     \<lparr> sender = ''deals@shop.example'', subject = ''Sale'',
       received_time = Some (10 * us_per_hour), conversation_id = None,
       analysis = \<lparr> category = ''promotional'', urgency = ''low'', action_items = items,
                    topics = [] \<rparr>,
       entry_id = Some ''E3'', unread = True, flag_status = 0, flag_due_by = None,
       importance = 1,
       recipients = \<lparr> me_address = None, to_field = [], cc_field = [],
                      recipient_count = None \<rparr> \<rparr>"

definition promo_score :: "string list \<Rightarrow> score_data" where
  "promo_score items =
     the (score_email (Readable (promo_mail items)) [(''deals@shop.example'', 0)] Map.empty
            Map.empty (11 * us_per_hour) Map.empty)"

section \<open>Analyzer (analyzer.py)\<close>

subsection \<open>Dictionaries in insertion order\<close>

type_synonym 'v dict = "(string \<times> 'v) list"

definition dict_set :: "string \<Rightarrow> 'v \<Rightarrow> 'v dict \<Rightarrow> 'v dict" where
  \<comment> \<open>\<open>d[k] = v\<close>: an existing key keeps its place, a new key goes last\<close>
  "dict_set k v d =
     (if k \<in> fst ` set d then map (\<lambda>(k', v'). if k' = k then (k', v) else (k', v')) d
      else d @ [(k, v)])"

subsection \<open>Contact normalization\<close>

definition normalize_contact :: "string dict \<Rightarrow> string \<Rightarrow> string" where
  "normalize_contact contact_map contact =
     (if contact = [] then ''unknown''
      else (let contact_lower = lower contact in
            if has_at contact_lower then contact_lower
            else (case map_of contact_map contact_lower of
                    Some normalized \<Rightarrow> normalized
                  | None \<Rightarrow> contact_lower)))"

definition spec_normalize :: "string dict \<Rightarrow> string \<Rightarrow> string" where
  \<comment> \<open>Normalize(x) in the words of the specification, to compare with \<open>normalize_contact\<close>\<close>
  "spec_normalize alias x =
     (if has_at x then lower x
      else (case map_of alias (lower x) of Some a \<Rightarrow> a | None \<Rightarrow> lower x))"

definition alias_map_ok :: "string dict \<Rightarrow> bool" where
  \<comment> \<open>every image of the alias map is a lowercase address\<close>
  "alias_map_ok contact_map = list_all (\<lambda>(k, v). has_at v \<and> lower v = v) contact_map"

subsection \<open>Reading the properties of a mail item\<close>

datatype 'a read = Got 'a | ComError | OtherError
  \<comment> \<open>what reading one property of an item gives: a value (\<open>Got None\<close> is Python's \<open>None\<close>),
      a COM error, or another exception\<close>

definition raw_get :: "'a read \<Rightarrow> 'a option" where
  \<comment> \<open>a plain attribute read; \<open>None\<close>: it raises\<close>
  "raw_get r = (case r of Got v \<Rightarrow> Some v | ComError \<Rightarrow> None | OtherError \<Rightarrow> None)"

definition safe_get_property :: "string option read \<Rightarrow> 'a \<Rightarrow> 'a read \<Rightarrow> 'a option" where
  \<comment> \<open>\<open>safe_get_property(item, name, default)\<close>; \<open>None\<close>: it raises. On a COM error its handler
      formats a log line with the item's \<open>Subject\<close>, read without protection, so that a
      \<open>Subject\<close> that cannot be read makes the handler raise.\<close>
  "safe_get_property subj dflt r =
     (case r of
        Got v \<Rightarrow> Some v
      | OtherError \<Rightarrow> Some dflt
      | ComError \<Rightarrow> (case subj of Got s \<Rightarrow> Some dflt | ComError \<Rightarrow> None | OtherError \<Rightarrow> None))"

subsection \<open>Inbox scan and message tracking\<close>

record inbox_obs =
  o_class :: "int read"
  o_entry_id :: "string option read"
  o_sender_name :: "string option read"
  o_sender_email :: "string option read"
  o_exchange_smtp :: "string option"  \<comment> \<open>what resolving an Exchange address gives, if anything\<close>
  o_subject :: "string option read"
  o_unread :: "bool option read"
  o_received :: "datetime option read"
  o_modified :: "datetime option read"
  o_folder_path :: "string option read"
  o_parent_name :: "string option read"

datatype scanned = FetchRaises | Seen inbox_obs
  \<comment> \<open>\<open>FetchRaises\<close>: \<open>items[i + 1]\<close> raises, and the variable \<open>item\<close> keeps its old binding\<close>

record behavior =
  read_kept :: int
  unread_kept :: int
  deleted :: int
  moved :: int
  total :: int

record scan_state =
  st_tracking :: "track_record dict"
  name_email_pairs :: "(string \<times> string) list"
  sender_behavior :: "behavior dict"
  processed_count :: nat
  last_item :: "inbox_obs option"   \<comment> \<open>the variable \<open>item\<close>; \<open>None\<close>: not yet bound\<close>
  aborted :: bool                   \<comment> \<open>the loop's exception handler has itself raised\<close>

definition truthy :: "string option \<Rightarrow> bool" where
  "truthy s = (case s of None \<Rightarrow> False | Some x \<Rightarrow> x \<noteq> [])"

definition name_or_unknown :: "string option \<Rightarrow> string" where
  "name_or_unknown sender_name = (if truthy sender_name then the sender_name else ''Unknown Sender'')"

definition get_sender_address :: "string option \<Rightarrow> string option \<Rightarrow> string option \<Rightarrow> string" where
  "get_sender_address sender_addr sender_name exchange_smtp =
     (case sender_addr of
        None \<Rightarrow> name_or_unknown sender_name
      | Some a \<Rightarrow>
          if a \<noteq> [] \<and> \<not> has_at a \<and> is_prefix ''/'' a then
            (case exchange_smtp of Some s \<Rightarrow> s | None \<Rightarrow> name_or_unknown sender_name)
          else if a \<noteq> [] \<and> has_at a then a
          else name_or_unknown sender_name)"

definition new_check_count :: "track_record dict \<Rightarrow> string \<Rightarrow> bool \<Rightarrow> int" where
  "new_check_count tr i is_read =
     (let previous_check_count = (case map_of tr i of None \<Rightarrow> 0 | Some r \<Rightarrow> check_count r)
      in if \<not> is_read then previous_check_count + 1 else 0)"

definition count_kept :: "bool \<Rightarrow> behavior \<Rightarrow> behavior" where
  "count_kept is_read sb =
     (if is_read then sb\<lparr> read_kept := read_kept sb + 1 \<rparr>
      else sb\<lparr> unread_kept := unread_kept sb + 1 \<rparr>)"

definition count_gone :: "string option \<Rightarrow> behavior \<Rightarrow> behavior" where
  "count_gone parent_name sb =
     (if parent_name = Some ''Deleted Items'' then sb\<lparr> deleted := deleted sb + 1 \<rparr>
      else sb\<lparr> moved := moved sb + 1 \<rparr>)"

definition empty_behavior :: behavior where
  "empty_behavior = \<lparr> read_kept = 0, unread_kept = 0, deleted = 0, moved = 0, total = 0 \<rparr>"

definition read_identity :: "inbox_obs \<Rightarrow> (int \<times> string option \<times> string option \<times> string option) option" where
  \<comment> \<open>the reads up to the capture of the name and address pair; \<open>None\<close>: one of them raises\<close>
  "read_identity ob =
     do {
       c \<leftarrow> raw_get (o_class ob);
       if c \<noteq> 43 then Some (c, None, None, None)
       else do {
         eid \<leftarrow> safe_get_property (o_subject ob) None (o_entry_id ob);
         sender_name \<leftarrow> safe_get_property (o_subject ob) None (o_sender_name ob);
         sender_email \<leftarrow> safe_get_property (o_subject ob) None (o_sender_email ob);
         Some (c, eid, sender_name, sender_email)
       }
     }"

definition read_details ::
  "inbox_obs \<Rightarrow> (string option \<times> bool option \<times> datetime option \<times> datetime option
                  \<times> string option) option" where
  \<comment> \<open>the reads between the guard on sender and entry id and the update of the tracking
      record; \<open>None\<close>: one of them raises\<close>
  "read_details ob =
     do {
       current_folder \<leftarrow> safe_get_property (o_subject ob) None (o_folder_path ob);
       unread_now \<leftarrow> safe_get_property (o_subject ob) None (o_unread ob);
       received \<leftarrow> safe_get_property (o_subject ob) None (o_received ob);
       modified \<leftarrow> safe_get_property (o_subject ob) None (o_modified ob);
       subj \<leftarrow> safe_get_property (o_subject ob) (Some ''<No Subject>'') (o_subject ob);
       Some (current_folder, unread_now, received, modified, subj)
     }"

definition handler_ok :: "inbox_obs option \<Rightarrow> bool" where
  \<comment> \<open>the loop's exception handler takes the first 50 characters of the subject of the item
      bound to \<open>item\<close>: it raises when the variable is unbound, when the read raises and
      when the subject is \<open>None\<close>\<close>
  "handler_ok it =
     (case it of
        None \<Rightarrow> False
      | Some ob \<Rightarrow>
          (case safe_get_property (o_subject ob) (Some ''<Unknown>'') (o_subject ob) of
             Some (Some s) \<Rightarrow> True
           | Some None \<Rightarrow> False
           | None \<Rightarrow> False))"

definition handle_error :: "scan_state \<Rightarrow> scan_state" where
  "handle_error st = (if handler_ok (last_item st) then st else st\<lparr> aborted := True \<rparr>)"

definition track_message ::
  "string option \<Rightarrow> datetime \<Rightarrow> inbox_obs \<Rightarrow> string \<Rightarrow> string \<Rightarrow> string
     \<Rightarrow> string option \<Rightarrow> string option
     \<Rightarrow> (string option \<times> bool option \<times> datetime option \<times> datetime option \<times> string option)
     \<Rightarrow> scan_state \<Rightarrow> scan_state" where
  \<comment> \<open>the update of the tracking record, then the sender's behaviour counts; the parent
      folder's name is only read, after the update, for a message outside the inbox\<close>
  "track_message inbox_path now ob i who raw_sender sender_name sender_email details st =
     (case details of
        (current_folder, unread_now, received, modified, subj) \<Rightarrow>
          (let is_read = (unread_now = Some False);
               rec = \<lparr> t_subject = subj, t_sender = who, t_raw_sender = raw_sender,
                       t_sender_name = sender_name, t_sender_email = sender_email,
                       t_received_time = received, t_last_modified = modified,
                       t_folder_path = current_folder, is_currently_read = is_read,
                       check_count = new_check_count (st_tracking st) i is_read,
                       t_last_checked = now \<rparr>;
               sb = (case map_of (sender_behavior st) who of
                       None \<Rightarrow> empty_behavior | Some b \<Rightarrow> b);
               sb1 = sb\<lparr> total := total sb + 1 \<rparr>;
               st1 = st\<lparr> st_tracking := dict_set i rec (st_tracking st) \<rparr>
           in if current_folder = inbox_path then
                st1\<lparr> sender_behavior := dict_set who (count_kept is_read sb1) (sender_behavior st1),
                      processed_count := processed_count st1 + 1 \<rparr>
              else (case safe_get_property (o_subject ob) None (o_parent_name ob) of
                      None \<Rightarrow>
                        handle_error
                          (st1\<lparr> sender_behavior := dict_set who sb1 (sender_behavior st1) \<rparr>)
                    | Some parent_name \<Rightarrow>
                        st1\<lparr> sender_behavior :=
                                dict_set who (count_gone parent_name sb1) (sender_behavior st1),
                              processed_count := processed_count st1 + 1 \<rparr>)))"

definition scan_seen ::
  "string dict \<Rightarrow> string option \<Rightarrow> datetime \<Rightarrow> inbox_obs \<Rightarrow> scan_state \<Rightarrow> scan_state" where
  \<comment> \<open>the loop body on a fetched item, \<open>st\<close> having \<open>item\<close> bound to it\<close>
  "scan_seen cm inbox_path now ob st =
     (case read_identity ob of
        None \<Rightarrow> handle_error st
      | Some (c, eid, sender_name, sender_email) \<Rightarrow>
          if c \<noteq> 43 then st
          else
            (let st1 = (if truthy sender_name \<and> truthy sender_email \<and> has_at (the sender_email)
                        then st\<lparr> name_email_pairs := name_email_pairs st
                                   @ [(lower (the sender_name), lower (the sender_email))] \<rparr>
                        else st);
                 raw_sender = get_sender_address sender_email sender_name (o_exchange_smtp ob);
                 who = normalize_contact cm raw_sender
             in if who = [] \<or> \<not> truthy eid then st1
                else (case read_details ob of
                        None \<Rightarrow> handle_error st1
                      | Some details \<Rightarrow>
                          track_message inbox_path now ob (the eid) who raw_sender
                            sender_name sender_email details st1)))"

definition scan_item ::
  "string dict \<Rightarrow> string option \<Rightarrow> datetime \<Rightarrow> scanned \<Rightarrow> scan_state \<Rightarrow> scan_state" where
  "scan_item cm inbox_path now it st =
     (if aborted st then st
      else (case it of
              FetchRaises \<Rightarrow> handle_error st
            | Seen ob \<Rightarrow> scan_seen cm inbox_path now ob (st\<lparr> last_item := Some ob \<rparr>)))"




definition add_direct_pairs :: "(string \<times> string) list \<Rightarrow> string dict \<Rightarrow> string dict" where
  \<comment> \<open>the update of the contact map after the scan loop\<close>
  "add_direct_pairs pairs cm =
     fold (\<lambda>(name, email) m. if name \<noteq> [] \<and> email \<noteq> [] \<and> has_at email
                               then dict_set name email m else m) pairs cm"

record analyzer_state =
  email_tracking :: "track_record dict"
  contact_map :: "string dict"
  read_kept_stats :: "int dict"






subsection \<open>Repeated scans\<close>














subsection \<open>Example inputs of the analyzer\<close>


definition obs_of :: "string \<Rightarrow> string \<Rightarrow> string \<Rightarrow> bool \<Rightarrow> inbox_obs" where
  "obs_of i name addr unread_now =
     \<lparr> o_class = Got 43, o_entry_id = Got (Some i), o_sender_name = Got (Some name),
       o_sender_email = Got (Some addr), o_exchange_smtp = None, o_subject = Got (Some ''Status''),
       o_unread = Got (Some unread_now), o_received = Got (Some 0), o_modified = Got (Some 0),
       o_folder_path = Got (Some ''Inbox''), o_parent_name = Got (Some ''Inbox'') \<rparr>"




definition unbound_m1 :: "datetime \<times> scanned list" where
  \<comment> \<open>the first fetch fails while \<open>item\<close> is unbound\<close>
  "unbound_m1 = (0, [FetchRaises, Seen (obs_of ''M1'' ''John Doe'' ''jdoe@example.com'' True)])"



definition unknown_alias :: "string dict" where
  "unknown_alias = [(''unknown'', ''unknown@example.com'')]"

definition doe_alias :: "string dict" where
  "doe_alias = [(''john doe'', ''jdoe@example.com'')]"


subsection \<open>Sender importance model\<close>

record response =
  response_time :: "real option"   \<comment> \<open>latency in hours\<close>
  response_length :: nat
  sent_date :: datetime

record counted =
  count :: int
  dates :: "datetime list"

record sender_record =
  raw_score :: real
  reply_count :: int
  initiation_count :: int
  read_kept_count :: int
  total_interactions :: int
  last_interaction :: "datetime option"
  normalized_score :: real

definition dict_get_list :: "'v list dict \<Rightarrow> string \<Rightarrow> 'v list" where
  "dict_get_list d k = (case map_of d k of None \<Rightarrow> [] | Some xs \<Rightarrow> xs)"

definition possible_identities :: "string dict \<Rightarrow> string \<Rightarrow> string list" where
  "possible_identities cm normalized_contact =
     normalized_contact # map fst (filter (\<lambda>(display_name, email). email = normalized_contact) cm)"

definition all_responses :: "string dict \<Rightarrow> response list dict \<Rightarrow> string \<Rightarrow> response list" where
  "all_responses cm response_data normalized_contact =
     concat (map (dict_get_list response_data) (possible_identities cm normalized_contact))"

definition valid_responses :: "response list \<Rightarrow> response list" where
  "valid_responses rs =
     filter (\<lambda>r. case response_time r of None \<Rightarrow> False | Some t \<Rightarrow> t \<ge> 0) rs"

definition list_min :: "int \<Rightarrow> int list \<Rightarrow> int" where
  "list_min x xs = fold min xs x"

definition list_max :: "int \<Rightarrow> int list \<Rightarrow> int" where
  "list_max x xs = fold max xs x"

definition reply_score_of_valid :: "config \<Rightarrow> response list \<Rightarrow> real" where
  \<comment> \<open>the reply component computed from a non-empty list of valid responses\<close>
  "reply_score_of_valid cfg valid =
     (let reply_count = length valid;
          avg_response_time = mean (map (\<lambda>r. the (response_time r)) valid);
          avg_response_length = mean (map (\<lambda>r. real (response_length r)) valid);
          response_dates = map sent_date valid;
          min_date = list_min (hd response_dates) (tl response_dates);
          max_date = list_max (hd response_dates) (tl response_dates);
          date_range_days = max 1 (delta_days max_date min_date);
          response_freq = real reply_count / real_of_int date_range_days;
          response_time_score = 1 / (1 + max 0 avg_response_time / 24)
      in cfg_get cfg ''reply_time_weight'' 0.4 * response_time_score
         + cfg_get cfg ''reply_rate_weight'' 0.4 * min 1 (response_freq * 10)
         + cfg_get cfg ''reply_length_weight'' 0.2 * min 1 (max 0 avg_response_length / 500))"

definition counted_valid :: "config \<Rightarrow> response list \<Rightarrow> response list" where
  \<comment> \<open>the responses that enter the reply component: none unless the contact has the
      configured minimum number of responses\<close>
  "counted_valid cfg rs =
     (if real (length rs) \<ge> cfg_get cfg ''min_emails_for_pattern'' 1 then valid_responses rs else [])"

definition reply_component :: "config \<Rightarrow> string dict \<Rightarrow> response list dict \<Rightarrow> string \<Rightarrow> real" where
  "reply_component cfg cm response_data normalized_contact =
     (let valid = counted_valid cfg (all_responses cm response_data normalized_contact)
      in if valid \<noteq> [] then reply_score_of_valid cfg valid else 0)"

definition merged_counts :: "counted dict \<Rightarrow> string list \<Rightarrow> counted" where
  "merged_counts d ids =
     (let found = concat (map (\<lambda>i. case map_of d i of None \<Rightarrow> [] | Some c \<Rightarrow> [c]) ids)
      in \<lparr> count = sum_list (map count found), dates = concat (map dates found) \<rparr>)"

definition contact_raw ::
  "config \<Rightarrow> string dict \<Rightarrow> response list dict \<Rightarrow> counted dict \<Rightarrow> counted dict \<Rightarrow> string
     \<Rightarrow> sender_record" where
  "contact_raw cfg cm response_data sender_initiations kept_stats normalized_contact =
     (let ids = possible_identities cm normalized_contact;
          valid = counted_valid cfg (all_responses cm response_data normalized_contact);
          inits = merged_counts sender_initiations ids;
          kept = merged_counts kept_stats ids;
          interaction_dates = map sent_date valid @ dates inits @ dates kept;
          raw = reply_component cfg cm response_data normalized_contact
                  * cfg_get cfg ''reply_pattern_score_factor'' 1
                + real_of_int (count inits) * cfg_get cfg ''initiation_score_factor'' 0.5
                + real_of_int (count kept) * cfg_get cfg ''read_kept_score_factor'' 0.3
      in \<lparr> raw_score = raw, reply_count = int (length valid), initiation_count = count inits,
           read_kept_count = count kept,
           total_interactions = int (length valid) + count inits + count kept,
           last_interaction = (case interaction_dates of [] \<Rightarrow> None
                                | d # ds \<Rightarrow> Some (list_max d ds)),
           normalized_score = 0.5 \<rparr>)"

definition retained_contacts ::
  "config \<Rightarrow> string dict \<Rightarrow> response list dict \<Rightarrow> counted dict \<Rightarrow> counted dict
     \<Rightarrow> sender_record dict" where
  "retained_contacts cfg cm response_data sender_initiations kept_stats =
     (let all_contacts = map fst response_data @ map fst sender_initiations @ map fst kept_stats;
          normalized_contacts = remdups (map (normalize_contact cm) all_contacts)
      in filter (\<lambda>x. total_interactions (snd x) > 0)
           (map (\<lambda>c. (c, contact_raw cfg cm response_data sender_initiations kept_stats c))
              normalized_contacts))"

definition real_min :: "real \<Rightarrow> real list \<Rightarrow> real" where
  "real_min x xs = fold min xs x"

definition real_max :: "real \<Rightarrow> real list \<Rightarrow> real" where
  "real_max x xs = fold max xs x"

definition normalize_scores :: "sender_record dict \<Rightarrow> sender_record dict" where
  "normalize_scores new_sender_scores =
     (case map (\<lambda>x. raw_score (snd x)) new_sender_scores of
        [] \<Rightarrow> new_sender_scores
      | s # ss \<Rightarrow>
          (let max_raw_score = real_max s ss; min_raw_score = real_min s ss;
               raw_score_range = max_raw_score - min_raw_score
           in if raw_score_range > 0 then
                map (\<lambda>x. (fst x, (snd x)\<lparr> normalized_score :=
                              clamp01 ((raw_score (snd x) - min_raw_score) / raw_score_range) \<rparr>))
                  new_sender_scores
              else if length new_sender_scores = 1 then
                map (\<lambda>x. (fst x, (snd x)\<lparr> normalized_score := 0.6 \<rparr>)) new_sender_scores
              else new_sender_scores))"

definition calculate_contact_importance ::
  "config \<Rightarrow> string dict \<Rightarrow> response list dict \<Rightarrow> counted dict \<Rightarrow> counted dict
     \<Rightarrow> sender_record dict" where
  "calculate_contact_importance cfg cm response_data sender_initiations kept_stats =
     normalize_scores (retained_contacts cfg cm response_data sender_initiations kept_stats)"

subsection \<open>Example inputs of the importance model\<close>

definition kept_two :: "counted dict" where
  "kept_two = [(''ann@example.com'', \<lparr> count = 2, dates = [] \<rparr>),
               (''bob@example.com'', \<lparr> count = 2, dates = [] \<rparr>)]"

definition kept_one :: "counted dict" where
  "kept_one = [(''ann@example.com'', \<lparr> count = 2, dates = [] \<rparr>)]"

definition kept_spread :: "counted dict" where
  "kept_spread = [(''ann@example.com'', \<lparr> count = 1, dates = [] \<rparr>),
                  (''bob@example.com'', \<lparr> count = 3, dates = [] \<rparr>),
                  (''cy@example.com'', \<lparr> count = 5, dates = [] \<rparr>)]"

definition doe_replies :: "response list dict" where
  "doe_replies =
     [(''jdoe@example.com'',
         [\<lparr> response_time = Some 12, response_length = 200, sent_date = 0 \<rparr>,
          \<lparr> response_time = Some (-1), response_length = 900, sent_date = 50 * us_per_day \<rparr>]),
      (''john doe'',
         [\<lparr> response_time = Some 36, response_length = 400, sent_date = 4 * us_per_day \<rparr>])]"


subsection \<open>Building the contact map\<close>

text \<open>
  \<open>_initialize_contact_map\<close> builds the alias map from the tracking store, and only when
  the map is empty. Its sets of candidate addresses are kept here in insertion order; the
  iteration order of a Python set is not specified, and it only decides between candidates
  of equal score. The dictionary \<open>name_parts\<close> and the map from addresses to names, which
  the function fills and never reads, are left out. Word characters are the ASCII ones.
\<close>

definition is_space :: "char \<Rightarrow> bool" where
  "is_space c = ((of_char c :: nat) \<in> {9, 10, 11, 12, 13, 32})"

definition strip :: "string \<Rightarrow> string" where
  "strip s = rev (dropWhile is_space (rev (dropWhile is_space s)))"

definition is_word_char :: "char \<Rightarrow> bool" where
  "is_word_char c = (let n = (of_char c :: nat) in
     (48 \<le> n \<and> n \<le> 57) \<or> (65 \<le> n \<and> n \<le> 90) \<or> (97 \<le> n \<and> n \<le> 122) \<or> n = 95)"

definition name_words :: "string \<Rightarrow> string list" where
  \<comment> \<open>the pieces between non-word characters that are longer than two characters\<close>
  "name_words s = filter (\<lambda>w. length w > 2) (split_on (\<lambda>c. \<not> is_word_char c) s)"

definition local_parts :: "string \<Rightarrow> string list" where
  \<comment> \<open>the local part cut at each dot, underscore and hyphen\<close>
  "local_parts l = split_on (\<lambda>c. c \<in> set ''._-'') l"

definition email_local :: "string \<Rightarrow> string" where
  \<comment> \<open>\<open>email.split('@')[0]\<close>\<close>
  "email_local e = takeWhile (\<lambda>c. c \<noteq> CHR ''@'') e"

definition build_ok :: "track_record dict \<Rightarrow> bool" where
  \<comment> \<open>no record holds \<open>None\<close> for the sender's name or address: \<open>.strip()\<close> on \<open>None\<close>
      raises, and the exception ends the build before the map is touched\<close>
  "build_ok tr = list_all (\<lambda>x. t_sender_name (snd x) \<noteq> None \<and> t_sender_email (snd x) \<noteq> None) tr"

definition raw_pairs_of :: "track_record \<Rightarrow> (string \<times> string) list" where
  "raw_pairs_of r =
     (let sender_s = strip (t_sender r); raw_sender = strip (t_raw_sender r);
          sender_name = strip (the (t_sender_name r)); sender_email = strip (the (t_sender_email r))
      in (if sender_s \<noteq> [] \<and> raw_sender \<noteq> [] \<and> sender_s \<noteq> raw_sender then
            (if has_at sender_s \<and> \<not> has_at raw_sender then [(lower raw_sender, lower sender_s)]
             else if has_at raw_sender \<and> \<not> has_at sender_s then [(lower sender_s, lower raw_sender)]
             else [])
          else [])
         @ (if sender_name \<noteq> [] \<and> sender_email \<noteq> [] \<and> has_at sender_email
            then [(lower sender_name, lower sender_email)] else []))"

definition raw_sender_pairs :: "track_record dict \<Rightarrow> (string \<times> string) list" where
  "raw_sender_pairs tr = concat (map (\<lambda>x. raw_pairs_of (snd x)) tr)"

definition add_to :: "string \<Rightarrow> string \<Rightarrow> string list dict \<Rightarrow> string list dict" where
  \<comment> \<open>\<open>d[k].add(v)\<close> on a dictionary of sets\<close>
  "add_to k v d =
     (case map_of d k of
        None \<Rightarrow> d @ [(k, [v])]
      | Some vs \<Rightarrow> dict_set k (if v \<in> set vs then vs else vs @ [v]) d)"

definition corresponds :: "string \<Rightarrow> string \<Rightarrow> bool" where
  \<comment> \<open>a word of the name occurs in the address's local part, or a part of the local part
      occurs in the name\<close>
  "corresponds name email =
     (list_ex (\<lambda>w. contains w (email_local email)) (name_words name)
      \<or> list_ex (\<lambda>part. contains part name) (local_parts (email_local email)))"

definition pair_up :: "track_record dict \<Rightarrow> string list dict \<Rightarrow> string list dict" where
  "pair_up tr nte =
     fold (\<lambda>x acc.
        (let sender_s = strip (t_sender (snd x)) in
         if sender_s = [] then acc
         else if has_at sender_s then
           fold (\<lambda>y acc2.
              (let other = strip (t_sender (snd y)) in
               if other \<noteq> [] \<and> \<not> has_at other \<and> corresponds (lower other) (lower sender_s)
               then add_to (lower other) (lower sender_s) acc2 else acc2)) tr acc
         else
           fold (\<lambda>y acc2.
              (let other = strip (t_sender (snd y)) in
               if other \<noteq> [] \<and> has_at other \<and> corresponds (lower sender_s) (lower other)
               then add_to (lower sender_s) (lower other) acc2 else acc2)) tr acc)) tr nte"

definition by_components :: "track_record dict \<Rightarrow> string list dict \<Rightarrow> string list dict" where
  "by_components tr nte =
     fold (\<lambda>name acc.
        fold (\<lambda>y acc2.
           (let s = lower (t_sender (snd y)) in
            if has_at s \<and> list_ex (\<lambda>w. contains w s) (name_words name)
            then add_to name s acc2 else acc2)) tr acc) (map fst nte) nte"

definition name_to_emails :: "track_record dict \<Rightarrow> string list dict" where
  "name_to_emails tr =
     by_components tr
       (pair_up tr (fold (\<lambda>p acc. add_to (fst p) (snd p) acc) (raw_sender_pairs tr) []))"

definition match_score :: "string \<Rightarrow> string \<Rightarrow> nat" where
  "match_score name email =
     (let loc = email_local email; ws = name_words name; parts = local_parts loc
      in sum_list (map (\<lambda>w. if contains w loc then 2
                             else if list_ex (\<lambda>part. contains w part) parts then 1 else 0) ws)
         + sum_list (map (\<lambda>part. if length part > 2 \<and> contains part name then 2
                                  else if list_ex (\<lambda>w. contains part w) ws then 1 else 0) parts)
         + (if concat ws = filter (\<lambda>c. c \<notin> set ''.-_'') loc then 5 else 0)
         + (if length ws > 1 \<and> is_prefix [hd (hd ws)] loc \<and> is_prefix (last ws) (drop 1 loc)
            then 4 else 0))"

definition best_email :: "string \<Rightarrow> string list \<Rightarrow> string option \<times> nat" where
  "best_email name emails =
     fold (\<lambda>email best. if match_score name email > snd best
                          then (Some email, match_score name email) else best) emails (None, 0)"

definition chosen :: "string \<Rightarrow> string list \<Rightarrow> string option" where
  \<comment> \<open>the address Step 3 maps the name to, if any\<close>
  "chosen name emails =
     (case best_email name emails of
        (Some b, sc) \<Rightarrow> if b \<noteq> [] \<and> sc \<ge> 1 then Some b else None
      | (None, sc) \<Rightarrow> None)"

definition resolve_best :: "string list dict \<Rightarrow> string dict \<Rightarrow> string dict" where
  "resolve_best nte cm =
     fold (\<lambda>x acc. case chosen (fst x) (snd x) of Some b \<Rightarrow> dict_set (fst x) b acc | None \<Rightarrow> acc)
       nte cm"

definition valid_pair :: "string \<times> string \<Rightarrow> bool" where
  "valid_pair p = (fst p \<noteq> [] \<and> snd p \<noteq> [] \<and> has_at (snd p))"

definition add_unmapped :: "(string \<times> string) list \<Rightarrow> string dict \<Rightarrow> string dict" where
  \<comment> \<open>Step 4: a direct pair is entered only for a name the map does not hold\<close>
  "add_unmapped pairs cm =
     fold (\<lambda>p acc. if valid_pair p \<and> fst p \<notin> fst ` set acc then dict_set (fst p) (snd p) acc
                    else acc) pairs cm"

definition initialize_contact_map :: "string dict \<Rightarrow> track_record dict \<Rightarrow> string dict" where
  "initialize_contact_map cm tr =
     (if cm \<noteq> [] then cm
      else if \<not> build_ok tr then []
      else add_unmapped (raw_sender_pairs tr) (resolve_best (name_to_emails tr) []))"

definition has_candidate :: "string list dict \<Rightarrow> string \<Rightarrow> string \<Rightarrow> bool" where
  \<comment> \<open>the address is among the candidates collected for the name\<close>
  "has_candidate nte n e = (case map_of nte n of None \<Rightarrow> False | Some es \<Rightarrow> e \<in> set es)"

subsection \<open>Example inputs of the contact map\<close>

definition tracked :: "string \<Rightarrow> string \<Rightarrow> string \<Rightarrow> track_record" where
  "tracked who name addr =
     \<lparr> t_subject = Some ''Status'', t_sender = who, t_raw_sender = who, t_sender_name = Some name,
       t_sender_email = Some addr, t_received_time = Some 0, t_last_modified = Some 0,
       t_folder_path = None, is_currently_read = True, check_count = 0, t_last_checked = 0 \<rparr>"

definition doe_tracking :: "track_record dict" where
  "doe_tracking = [(''E1'', tracked ''jd@corp.com'' ''John Doe'' ''jd@corp.com''),
                   (''E2'', tracked ''john.doe@gmail.com'' [] ''john.doe@gmail.com'')]"

definition lee_tracking :: "track_record dict" where
  "lee_tracking = [(''E3'', tracked ''office@corp.com'' ''Ann Lee'' ''office@corp.com'')]"


section \<open>Organizer (organizer.py)\<close>

datatype parent_state = ParentOther | ParentInbox
  \<comment> \<open>the item's parent is missing or another folder, or it is the inbox\<close>

record org_obs =
  g_entry_id :: "string option read"  \<comment> \<open>\<open>Got None\<close>: the item has no \<open>EntryID\<close>\<close>
  g_class :: "int read"
  g_parent :: "parent_state read"
  g_subject :: "string option read"   \<comment> \<open>read for the log lines and the progress display\<close>
  g_mail :: mail_item

datatype org_item = FetchRaises | Fetched org_obs
  \<comment> \<open>\<open>FetchRaises\<close>: \<open>inbox_items.Item(i+1)\<close> raises\<close>










subsection \<open>Example inputs of the organizer\<close>

definition zero_weight_cfg :: config where
  "zero_weight_cfg = [''sender_weight'' \<mapsto> 0, ''topic_weight'' \<mapsto> 0, ''temporal_weight'' \<mapsto> 0,
                      ''message_state_weight'' \<mapsto> 0, ''recipient_weight'' \<mapsto> 0]"





section \<open>Properties of the scoring engine\<close>
lemmas scorer_defs =
  recommend_action_def score_email_def score_components_def
  normalized_weights_def raw_weights_def cfg_get_def weighted_sum_def clamp01_def
  base_sender_score_def reopen_bonus_def category_priority_def temporal_score_of_def
  urgency_score_of_def recency_of_age_def delta_days_def hour_of_def midnight_def
  us_per_day_def us_per_hour_def message_state_score_of_def recipient_score_of_def
  recommend_from_def rule_due_def is_due_today_def rule_importance_def rule_priority_def
  rule_category_def rule_action_items_def due_bonus_of_def ignore_penalty_of_def Let_def

lemma capitalize_promotional: "capitalize ''promotional'' = ''Promotional''"
  by code_simp

lemma clamp01_range: "0 \<le> clamp01 x \<and> clamp01 x \<le> 1"
  by (simp add: clamp01_def)

lemma normalized_weights_ok:
  assumes "0 < sum_list (raw_weights cfg)"
  shows "normalized_weights cfg
           = Some (map (\<lambda>w. w / sum_list (raw_weights cfg)) (raw_weights cfg))"
proof (cases "sum_list (raw_weights cfg) = 1")
  case True
  then show ?thesis by (simp add: normalized_weights_def Let_def)
next
  case False
  with assms show ?thesis by (simp add: normalized_weights_def Let_def)
qed

lemma sum_list_scaled: "sum_list (map (\<lambda>w. w / t) ws) = sum_list ws / (t::real)"
  by (induction ws) (simp_all add: add_divide_distrib)

text \<open>
  Claim C1. A high-importance message that is not due today goes to "High Priority" when its
  final score reaches the high threshold and to "Important" otherwise, the threshold being
  the one of rule 3 with default 0.8 also when the key \<open>high_priority_threshold\<close> is missing.
  The code reads the missing key with default 0.7 in the high-importance rule and with 0.8
  in rule 3: under the empty configuration the message below scores 0.741, below the
  documented 0.8, and is still filed under "High Priority".
\<close>

theorem recommend_action_high_importance_default_threshold:
  "recommend_action (Readable boss_mail) [(''boss@example.com'', 0.7)] Map.empty Map.empty
      (11 * us_per_hour) None Map.empty
     = Some \<lparr> folder = ''High Priority'', flag = True, create_task = False,
              auto_archive = False, score = 0.741 \<rparr>"
  by (simp add: scorer_defs boss_mail_def)

text \<open>
  Claim C4. For every readable email and every configuration whose five weights are
  non-negative with positive sum, \<open>score_email\<close> returns a result; the weights it uses are
  the configured ones divided by their sum (so they sum to 1), and the final score is the
  clamped weighted sum, hence in [0,1] whatever the components are.
\<close>

theorem score_email_final_score_in_unit_interval:
  assumes nonneg: "\<forall>w \<in> set (raw_weights cfg). 0 \<le> w"
    and pos: "0 < sum_list (raw_weights cfg)"
  shows "\<exists>sd ws. score_email (Readable e) sender_scores ratios cfg now tracking = Some sd
           \<and> normalized_weights cfg = Some ws
           \<and> ws = map (\<lambda>w. w / sum_list (raw_weights cfg)) (raw_weights cfg)
           \<and> sum_list ws = 1 \<and> (\<forall>w \<in> set ws. 0 \<le> w)
           \<and> final_score sd
               = clamp01 (weighted_sum ws (score_components sender_scores ratios cfg now tracking e))
           \<and> 0 \<le> final_score sd \<and> final_score sd \<le> 1"
proof -
  let ?t = "sum_list (raw_weights cfg)"
  let ?ws = "map (\<lambda>w. w / ?t) (raw_weights cfg)"
  let ?c = "score_components sender_scores ratios cfg now tracking e"
  have nw: "normalized_weights cfg = Some ?ws"
    using pos by (rule normalized_weights_ok)
  have s1: "sum_list ?ws = 1"
    using pos by (simp add: sum_list_scaled)
  have nn: "\<forall>w \<in> set ?ws. 0 \<le> w"
    using nonneg pos by auto
  have se: "score_email (Readable e) sender_scores ratios cfg now tracking
              = Some \<lparr> final_score = clamp01 (weighted_sum ?ws ?c), comps = ?c, meta = e \<rparr>"
    by (simp add: score_email_def nw Let_def)
  show ?thesis
    using nw s1 nn se clamp01_range by auto
qed

theorem score_email_final_score_in_unit_interval_witness:
  "raw_weights heavy_state_cfg = [0.4, 0.25, 0.15, 2, 0.1]
   \<and> message_state_score
        (score_components [] Map.empty heavy_state_cfg (11 * us_per_hour) Map.empty plain_mail) = 1.5
   \<and> (\<exists>sd. score_email (Readable plain_mail) [] Map.empty heavy_state_cfg (11 * us_per_hour)
               Map.empty = Some sd
         \<and> 0 \<le> final_score sd \<and> final_score sd \<le> 1)"
proof -
  have h0: "raw_weights heavy_state_cfg = [0.4, 0.25, 0.15, 2, 0.1]"
    by (simp add: raw_weights_def cfg_get_def heavy_state_cfg_def)
  have h1: "\<forall>w \<in> set (raw_weights heavy_state_cfg). 0 \<le> w"
    by (simp add: raw_weights_def cfg_get_def heavy_state_cfg_def)
  have h2: "0 < sum_list (raw_weights heavy_state_cfg)"
    by (simp add: raw_weights_def cfg_get_def heavy_state_cfg_def)
  have h3: "message_state_score
              (score_components [] Map.empty heavy_state_cfg (11 * us_per_hour) Map.empty
                 plain_mail) = 1.5"
    by (simp add: score_components_def message_state_score_of_def cfg_get_def
        heavy_state_cfg_def plain_mail_def)
  from score_email_final_score_in_unit_interval
         [OF h1 h2, of plain_mail "[]" Map.empty "11 * us_per_hour" Map.empty] h0 h3
  show ?thesis by blast
qed

text \<open>
  Claim C5. A message of category "promotional" that is not due today, not of high
  importance, and whose final score is below both priority thresholds and below 0.3 is
  filed under "Archive/Promotional" with auto-archive when it has no action items, and
  under "Action Required" with auto-archive cancelled and a task when it has some.
\<close>

theorem recommend_action_promotional_low_score:
  assumes sc: "score_email item sender_scores ratios cfg now tracking = Some sd"
    and cat: "category (analysis (meta sd)) = ''promotional''"
    and nd: "\<not> is_due_today now (meta sd)"
    and ni: "importance (meta sd) \<noteq> 2"
    and lh: "final_score sd < cfg_get cfg ''high_priority_threshold'' 0.8"
    and lm: "final_score sd < cfg_get cfg ''medium_priority_threshold'' 0.5"
    and l3: "final_score sd < 0.3"
  shows "\<exists>r. recommend_action item sender_scores ratios cfg now llm tracking = Some r
           \<and> (if action_items (analysis (meta sd)) = []
              then folder r = ''Archive/Promotional'' \<and> auto_archive r
              else folder r = ''Action Required'' \<and> \<not> auto_archive r \<and> create_task r)"
  using assms
  by (simp add: recommend_action_def recommend_from_def rule_due_def rule_importance_def
      rule_priority_def rule_category_def rule_action_items_def Let_def capitalize_promotional)

lemma promo_score_email:
  "score_email (Readable (promo_mail items)) [(''deals@shop.example'', 0)] Map.empty Map.empty
     (11 * us_per_hour) Map.empty = Some (promo_score items)"
  by (simp add: promo_score_def score_email_def normalized_weights_def raw_weights_def
      cfg_get_def Let_def)

lemma promo_score_final:
  "final_score (promo_score []) = 0.214 \<and> final_score (promo_score [''reply'']) = 0.223"
  by (simp add: promo_score_def promo_mail_def scorer_defs)

lemma promo_score_meta: "meta (promo_score items) = promo_mail items"
  by (simp add: promo_score_def score_email_def normalized_weights_def raw_weights_def
      cfg_get_def Let_def)

theorem recommend_action_promotional_low_score_witness:
  "(\<exists>r. recommend_action (Readable (promo_mail [])) [(''deals@shop.example'', 0)] Map.empty
           Map.empty (11 * us_per_hour) None Map.empty = Some r
        \<and> folder r = ''Archive/Promotional'' \<and> auto_archive r)
   \<and> (\<exists>r. recommend_action (Readable (promo_mail [''reply''])) [(''deals@shop.example'', 0)]
             Map.empty Map.empty (11 * us_per_hour) None Map.empty = Some r
        \<and> folder r = ''Action Required'' \<and> \<not> auto_archive r \<and> create_task r)"
proof -
  have a: "category (analysis (meta (promo_score items))) = ''promotional''"
       "\<not> is_due_today (11 * us_per_hour) (meta (promo_score items))"
       "importance (meta (promo_score items)) \<noteq> 2" for items
    by (simp_all add: promo_score_meta promo_mail_def is_due_today_def)
  have b: "final_score (promo_score []) < cfg_get Map.empty ''high_priority_threshold'' 0.8"
          "final_score (promo_score []) < cfg_get Map.empty ''medium_priority_threshold'' 0.5"
          "final_score (promo_score []) < 0.3"
          "final_score (promo_score [''reply'']) < cfg_get Map.empty ''high_priority_threshold'' 0.8"
          "final_score (promo_score [''reply'']) < cfg_get Map.empty ''medium_priority_threshold'' 0.5"
          "final_score (promo_score [''reply'']) < 0.3"
    by (simp_all add: promo_score_final cfg_get_def)
  have c: "action_items (analysis (meta (promo_score items))) = items" for items
    by (simp add: promo_score_meta promo_mail_def)
  from recommend_action_promotional_low_score
         [OF promo_score_email a(1) a(2) a(3) b(1) b(2) b(3), of None]
       recommend_action_promotional_low_score
         [OF promo_score_email a(1) a(2) a(3) b(4) b(5) b(6), of None]
  show ?thesis by (simp add: c)
qed

section \<open>Properties of the analyzer\<close>

subsection \<open>Strings and dictionaries\<close>




lemma lower_char_idem: "lower_char (lower_char c) = lower_char c"
  by (cases c) (auto simp add: lower_char_def Let_def)

lemma lower_char_at: "lower_char c = CHR ''@'' \<longleftrightarrow> c = CHR ''@''"
proof
  assume a: "lower_char c = CHR ''@''"
  then have "(of_char (lower_char c) :: nat) = 64" by simp
  then have "(of_char c :: nat) = of_char CHR ''@''"
    by (auto simp add: lower_char_def Let_def split: if_splits)
  then show "c = CHR ''@''" by (simp only: of_char_eq_iff)
next
  assume "c = CHR ''@''" then show "lower_char c = CHR ''@''" by (simp add: lower_char_def)
qed

lemma lower_idem: "lower (lower s) = lower s"
  by (simp add: lower_def lower_char_idem)

lemma has_at_lower: "has_at (lower s) = has_at s"
proof -
  have "(CHR ''@'' \<in> lower_char ` set s) = (CHR ''@'' \<in> set s)"
  proof
    assume "CHR ''@'' \<in> lower_char ` set s"
    then obtain c where "c \<in> set s" "lower_char c = CHR ''@''" by auto
    then show "CHR ''@'' \<in> set s" by (simp add: lower_char_at)
  next
    assume "CHR ''@'' \<in> set s"
    moreover have "lower_char CHR ''@'' = CHR ''@''" by (simp add: lower_char_at)
    ultimately show "CHR ''@'' \<in> lower_char ` set s" by force
  qed
  then show ?thesis by (simp add: has_at_def lower_def)
qed


lemma map_of_replace_hit:
  "k \<in> fst ` set d \<Longrightarrow>
   map_of (map (\<lambda>(k', v'). if k' = k then (k', v) else (k', v')) d) k = Some v"
  by (induction d) auto

lemma map_of_replace_miss:
  "x \<noteq> k \<Longrightarrow>
   map_of (map (\<lambda>(k', v'). if k' = k then (k', v) else (k', v')) d) x = map_of d x"
  by (induction d) auto

lemma map_of_dict_set: "map_of (dict_set k v d) = (map_of d)(k \<mapsto> v)"
proof (cases "k \<in> fst ` set d")
  case True
  then show ?thesis by (auto simp add: dict_set_def map_of_replace_hit map_of_replace_miss fun_eq_iff)
next
  case False
  then have "map_of d k = None" by (simp add: map_of_eq_None_iff)
  then have "map_of (d @ [(k, v)]) = (map_of d)(k \<mapsto> v)"
    by (auto simp add: fun_eq_iff map_add_def split: option.splits)
  with False show ?thesis by (simp add: dict_set_def)
qed

lemma lower_nonempty: "lower s = [] \<longleftrightarrow> s = []"
  by (simp add: lower_def)





lemma safe_get_Got: "safe_get_property subj d (Got v) = Some v"
  by (simp add: safe_get_property_def)













lemma fold_aborted: "aborted st \<Longrightarrow> fold (scan_item cm p now) items st = st"
  by (induction items) (simp_all add: scan_item_def)












subsection \<open>Message tracking\<close>














subsection \<open>Contact normalization\<close>

text \<open>
  Claim C7, as stated, fails on the empty identifier: the code returns the placeholder
  "unknown" for it, which is not the lowercase form of the empty string, and a display
  name "Unknown" in the alias map makes a second normalization move on to an address.
\<close>

theorem normalize_contact_empty_not_idempotent:
  "normalize_contact unknown_alias [] = ''unknown''
   \<and> normalize_contact unknown_alias (normalize_contact unknown_alias []) = ''unknown@example.com''
   \<and> spec_normalize unknown_alias [] = []"
  by code_simp

lemma alias_map_ok_lookup:
  "alias_map_ok cm \<Longrightarrow> map_of cm k = Some v \<Longrightarrow> has_at v \<and> lower v = v"
  by (induction cm) (auto simp add: alias_map_ok_def split: if_splits)

text \<open>
  Claim C7, amended. For every non-empty identifier, and an alias map whose images are
  lowercase addresses, normalization is idempotent and is what the specification words:
  the lowercase form when it contains an at sign, else the alias of the lowercase form
  when there is one, else the lowercase form. For the empty identifier the result is the
  placeholder "unknown".
\<close>

theorem normalize_contact_idempotent:
  assumes ne: "x \<noteq> []" and ok: "alias_map_ok cm"
  shows "normalize_contact cm (normalize_contact cm x) = normalize_contact cm x
       \<and> normalize_contact cm x = spec_normalize cm x
       \<and> normalize_contact cm [] = ''unknown''"
proof (cases "has_at (lower x)")
  case True
  then show ?thesis
    using ne by (simp add: normalize_contact_def spec_normalize_def Let_def lower_idem
        lower_nonempty has_at_lower)
next
  case False
  show ?thesis
  proof (cases "map_of cm (lower x)")
    case None
    then show ?thesis
      using ne False by (simp add: normalize_contact_def spec_normalize_def Let_def lower_idem
          lower_nonempty has_at_lower)
  next
    case (Some v)
    from alias_map_ok_lookup [OF ok Some] have v: "has_at v" "lower v = v" by simp_all
    then have "v \<noteq> []" by (auto simp add: has_at_def)
    then show ?thesis
      using ne False Some v by (simp add: normalize_contact_def spec_normalize_def Let_def
          has_at_lower)
  qed
qed

lemma lower_john_doe: "lower ''John Doe'' = ''john doe''"
  by code_simp

lemma doe_alias_ok: "alias_map_ok doe_alias"
  by code_simp

theorem normalize_contact_idempotent_witness:
  "normalize_contact doe_alias ''John Doe'' = ''jdoe@example.com''
   \<and> normalize_contact doe_alias (normalize_contact doe_alias ''John Doe'') = ''jdoe@example.com''
   \<and> spec_normalize doe_alias ''John Doe'' = ''jdoe@example.com''"
proof -
  have n: "normalize_contact doe_alias ''John Doe'' = ''jdoe@example.com''"
    by (simp add: normalize_contact_def lower_john_doe has_at_def doe_alias_def)
  have ne: "''John Doe'' \<noteq> []" by simp
  note idem = normalize_contact_idempotent [OF ne doe_alias_ok]
  have t: "normalize_contact doe_alias (normalize_contact doe_alias ''John Doe'')
             = normalize_contact doe_alias ''John Doe''"
    using idem by (rule conjunct1)
  have s: "normalize_contact doe_alias ''John Doe'' = spec_normalize doe_alias ''John Doe''"
    using conjunct2 [OF idem] by (rule conjunct1)
  have t': "normalize_contact doe_alias (normalize_contact doe_alias ''John Doe'')
             = ''jdoe@example.com''"
    using t n by (rule trans)
  have s': "spec_normalize doe_alias ''John Doe'' = ''jdoe@example.com''"
    using s [symmetric] n by (rule trans)
  show ?thesis by (intro conjI) (fact n, fact t', fact s')
qed

subsection \<open>Sender importance model\<close>


lemma real_min_Min: "real_min x xs = Min (set (x # xs))"
  by (simp only: real_min_def Min.set_eq_fold)

lemma real_max_Max: "real_max x xs = Max (set (x # xs))"
  by (simp only: real_max_def Max.set_eq_fold)

lemma normalize_scores_length: "length (normalize_scores xs) = length xs"
  by (auto simp add: normalize_scores_def Let_def split: list.splits)

lemma normalize_scores_raw:
  "map (\<lambda>x. raw_score (snd x)) (normalize_scores xs) = map (\<lambda>x. raw_score (snd x)) xs"
  by (auto simp add: normalize_scores_def Let_def split: list.splits)

lemma normalize_scores_range:
  assumes "list_all (\<lambda>x. 0 \<le> normalized_score (snd x) \<and> normalized_score (snd x) \<le> 1) xs"
  shows "list_all (\<lambda>x. 0 \<le> normalized_score (snd x) \<and> normalized_score (snd x) \<le> 1)
           (normalize_scores xs)"
  using assms
  by (auto simp add: normalize_scores_def Let_def list_all_iff clamp01_range split: list.splits)

lemma normalize_scores_single:
  assumes "length xs = 1"
  shows "list_all (\<lambda>x. normalized_score (snd x) = 0.6) (normalize_scores xs)"
proof -
  from assms obtain x where xs: "xs = [x]"
    by (cases xs) (auto simp add: length_Suc_conv)
  show ?thesis by (simp add: xs normalize_scores_def real_max_def real_min_def)
qed

lemma raw_extremes:
  "xs = y # ys \<Longrightarrow>
   real_max (raw_score (snd y)) (map (\<lambda>x. raw_score (snd x)) ys) = Max ((\<lambda>x. raw_score (snd x)) ` set xs)
   \<and> real_min (raw_score (snd y)) (map (\<lambda>x. raw_score (snd x)) ys) = Min ((\<lambda>x. raw_score (snd x)) ` set xs)"
  by (simp add: real_max_Max real_min_Min)

lemma normalize_scores_Cons:
  "normalize_scores (y # ys)
     = (if real_max (raw_score (snd y)) (map (\<lambda>x. raw_score (snd x)) ys)
           - real_min (raw_score (snd y)) (map (\<lambda>x. raw_score (snd x)) ys) > 0
        then map (\<lambda>x. (fst x, (snd x)\<lparr> normalized_score :=
                 clamp01 ((raw_score (snd x)
                            - real_min (raw_score (snd y)) (map (\<lambda>x. raw_score (snd x)) ys))
                          / (real_max (raw_score (snd y)) (map (\<lambda>x. raw_score (snd x)) ys)
                             - real_min (raw_score (snd y)) (map (\<lambda>x. raw_score (snd x)) ys))) \<rparr>))
               (y # ys)
        else if ys = [] then [(fst y, (snd y)\<lparr> normalized_score := 0.6 \<rparr>)]
        else y # ys)"
  by (simp add: normalize_scores_def Let_def)

lemma normalize_scores_scaled:
  assumes "xs \<noteq> []"
    and "Max ((\<lambda>x. raw_score (snd x)) ` set xs) > Min ((\<lambda>x. raw_score (snd x)) ` set xs)"
  shows "normalize_scores xs
           = map (\<lambda>x. (fst x, (snd x)\<lparr> normalized_score :=
                   clamp01 ((raw_score (snd x) - Min ((\<lambda>x. raw_score (snd x)) ` set xs))
                            / (Max ((\<lambda>x. raw_score (snd x)) ` set xs)
                               - Min ((\<lambda>x. raw_score (snd x)) ` set xs))) \<rparr>)) xs"
proof -
  from assms(1) obtain y ys where xs: "xs = y # ys" by (cases xs) auto
  have mx: "real_max (raw_score (snd y)) (map (\<lambda>x. raw_score (snd x)) ys)
              = Max ((\<lambda>x. raw_score (snd x)) ` set xs)"
    and mn: "real_min (raw_score (snd y)) (map (\<lambda>x. raw_score (snd x)) ys)
              = Min ((\<lambda>x. raw_score (snd x)) ` set xs)"
    using raw_extremes [OF xs] by blast+
  have "normalize_scores (y # ys)
           = map (\<lambda>x. (fst x, (snd x)\<lparr> normalized_score :=
                   clamp01 ((raw_score (snd x) - Min ((\<lambda>x. raw_score (snd x)) ` set xs))
                            / (Max ((\<lambda>x. raw_score (snd x)) ` set xs)
                               - Min ((\<lambda>x. raw_score (snd x)) ` set xs))) \<rparr>)) (y # ys)"
    unfolding normalize_scores_Cons mx mn using assms(2) by simp
  then show ?thesis unfolding xs [symmetric] .
qed

lemma normalize_scores_flat:
  assumes "2 \<le> length xs" and "\<forall>x \<in> set xs. raw_score (snd x) = v"
  shows "normalize_scores xs = xs"
proof -
  from assms(1) obtain y ys where xs: "xs = y # ys" and ys: "ys \<noteq> []"
    by (cases xs) force+
  let ?S = "(\<lambda>x. raw_score (snd x)) ` set xs"
  have fin: "finite ?S" and ne: "?S \<noteq> {}" by (simp_all add: xs)
  have all: "\<forall>z \<in> ?S. z = v" using assms(2) by auto
  have "Max ?S \<in> ?S" "Min ?S \<in> ?S" using fin ne by (rule Max_in Min_in)+
  with all have "Max ?S = v" "Min ?S = v" by blast+
  then have "real_max (raw_score (snd y)) (map (\<lambda>x. raw_score (snd x)) ys)
             - real_min (raw_score (snd y)) (map (\<lambda>x. raw_score (snd x)) ys) = 0"
    using raw_extremes [OF xs] by simp
  then show ?thesis
    unfolding xs normalize_scores_Cons using ys by simp
qed

lemma retained_default:
  "list_all (\<lambda>x. normalized_score (snd x) = 0.5)
     (retained_contacts cfg cm response_data sender_initiations kept_stats)"
  by (simp add: retained_contacts_def Let_def list_all_iff contact_raw_def image_iff)

text \<open>
  Claim C6. After a rebuild of the importance model every retained contact's normalized
  score lies in [0,1]: it is the clamped linear min-max scaling of the raw scores of the
  retained contacts when their range is positive; and a single retained contact, whose
  range is zero, gets the fixed default 0.6.
\<close>

theorem normalized_scores_in_unit_interval:
  "list_all (\<lambda>x. 0 \<le> normalized_score (snd x) \<and> normalized_score (snd x) \<le> 1)
     (calculate_contact_importance cfg cm response_data sender_initiations kept_stats)
   \<and> (length (calculate_contact_importance cfg cm response_data sender_initiations kept_stats) = 1
        \<longrightarrow> list_all (\<lambda>x. normalized_score (snd x) = 0.6)
              (calculate_contact_importance cfg cm response_data sender_initiations kept_stats))
   \<and> (retained_contacts cfg cm response_data sender_initiations kept_stats \<noteq> []
        \<and> Min ((\<lambda>x. raw_score (snd x))
                 ` set (retained_contacts cfg cm response_data sender_initiations kept_stats))
          < Max ((\<lambda>x. raw_score (snd x))
                 ` set (retained_contacts cfg cm response_data sender_initiations kept_stats))
        \<longrightarrow> calculate_contact_importance cfg cm response_data sender_initiations kept_stats
             = map (\<lambda>x. (fst x, (snd x)\<lparr> normalized_score :=
                     clamp01 ((raw_score (snd x)
                        - Min ((\<lambda>x. raw_score (snd x))
                            ` set (retained_contacts cfg cm response_data sender_initiations kept_stats)))
                      / (Max ((\<lambda>x. raw_score (snd x))
                            ` set (retained_contacts cfg cm response_data sender_initiations kept_stats))
                         - Min ((\<lambda>x. raw_score (snd x))
                            ` set (retained_contacts cfg cm response_data sender_initiations kept_stats)))) \<rparr>))
                 (retained_contacts cfg cm response_data sender_initiations kept_stats))"
proof -
  let ?rs = "retained_contacts cfg cm response_data sender_initiations kept_stats"
  have d: "list_all (\<lambda>x. normalized_score (snd x) = 0.5) ?rs" by (rule retained_default)
  then have "list_all (\<lambda>x. 0 \<le> normalized_score (snd x) \<and> normalized_score (snd x) \<le> 1) ?rs"
    by (rule list.pred_mono_strong) simp
  then have a: "list_all (\<lambda>x. 0 \<le> normalized_score (snd x) \<and> normalized_score (snd x) \<le> 1)
                  (normalize_scores ?rs)"
    by (rule normalize_scores_range)
  have b: "length (normalize_scores ?rs) = 1
             \<longrightarrow> list_all (\<lambda>x. normalized_score (snd x) = 0.6) (normalize_scores ?rs)"
  proof
    assume "length (normalize_scores ?rs) = 1"
    then have "length ?rs = 1" by (simp only: normalize_scores_length)
    then show "list_all (\<lambda>x. normalized_score (snd x) = 0.6) (normalize_scores ?rs)"
      by (rule normalize_scores_single)
  qed
  show ?thesis
    unfolding calculate_contact_importance_def
    using a b normalize_scores_scaled [of ?rs] by blast
qed

lemma kept_one_length:
  "length (calculate_contact_importance Map.empty [] [] [] kept_one) = 1"
  by code_simp

theorem normalized_scores_in_unit_interval_witness:
  "list_all (\<lambda>x. normalized_score (snd x) = 0.6)
     (calculate_contact_importance Map.empty [] [] [] kept_one)
   \<and> list_all (\<lambda>x. 0 \<le> normalized_score (snd x) \<and> normalized_score (snd x) \<le> 1)
       (calculate_contact_importance Map.empty [] [] [] kept_spread)
   \<and> map (\<lambda>x. (fst x, normalized_score (snd x)))
        (calculate_contact_importance Map.empty [] [] [] kept_spread)
       = [(''ann@example.com'', 0), (''bob@example.com'', 0.5), (''cy@example.com'', 1)]"
proof -
  have s: "map (\<lambda>x. (fst x, normalized_score (snd x)))
             (calculate_contact_importance Map.empty [] [] [] kept_spread)
           = [(''ann@example.com'', 0), (''bob@example.com'', 0.5), (''cy@example.com'', 1)]"
    by code_simp
  from normalized_scores_in_unit_interval [of Map.empty "[]" "[]" "[]" kept_one]
       normalized_scores_in_unit_interval [of Map.empty "[]" "[]" "[]" kept_spread]
       kept_one_length s
  show ?thesis by blast
qed

text \<open>
  Claim C10. When two or more contacts are retained and all have the same raw score, every
  one of them keeps the initial normalized score 0.5: neither the scaling nor the
  single-contact default 0.6 applies.
\<close>

theorem equal_raw_scores_keep_default:
  assumes two: "2 \<le> length (calculate_contact_importance cfg cm response_data sender_initiations kept_stats)"
    and same: "\<forall>x \<in> set (calculate_contact_importance cfg cm response_data sender_initiations kept_stats).
                 raw_score (snd x) = v"
  shows "list_all (\<lambda>x. normalized_score (snd x) = 0.5)
           (calculate_contact_importance cfg cm response_data sender_initiations kept_stats)"
proof -
  let ?rs = "retained_contacts cfg cm response_data sender_initiations kept_stats"
  have l: "2 \<le> length ?rs"
    using two by (simp add: calculate_contact_importance_def normalize_scores_length)
  have "\<forall>z \<in> set (map (\<lambda>x. raw_score (snd x)) (normalize_scores ?rs)). z = v"
    using same by (simp add: calculate_contact_importance_def)
  then have "\<forall>z \<in> set (map (\<lambda>x. raw_score (snd x)) ?rs). z = v"
    by (simp only: normalize_scores_raw)
  then have r: "\<forall>x \<in> set ?rs. raw_score (snd x) = v" by simp
  have e: "normalize_scores ?rs = ?rs" using l r by (rule normalize_scores_flat)
  show ?thesis
    by (simp only: calculate_contact_importance_def e retained_default)
qed

lemma kept_two_result:
  "map (\<lambda>x. (fst x, raw_score (snd x)))
     (calculate_contact_importance Map.empty [] [] [] kept_two)
     = [(''ann@example.com'', 0.6), (''bob@example.com'', 0.6)]"
  by code_simp

theorem equal_raw_scores_keep_default_witness:
  "map (\<lambda>x. (fst x, raw_score (snd x)))
     (calculate_contact_importance Map.empty [] [] [] kept_two)
     = [(''ann@example.com'', 0.6), (''bob@example.com'', 0.6)]
   \<and> list_all (\<lambda>x. normalized_score (snd x) = 0.5)
       (calculate_contact_importance Map.empty [] [] [] kept_two)"
proof -
  have "map (\<lambda>x. raw_score (snd x)) (calculate_contact_importance Map.empty [] [] [] kept_two)
          = map snd [(''ann@example.com'', 0.6::real), (''bob@example.com'', 0.6)]"
    unfolding kept_two_result [symmetric] by (simp add: comp_def)
  then have m: "map (\<lambda>x. raw_score (snd x)) (calculate_contact_importance Map.empty [] [] [] kept_two)
          = [0.6, 0.6]" by simp
  have two: "2 \<le> length (calculate_contact_importance Map.empty [] [] [] kept_two)"
    using arg_cong [OF m, of length] by simp
  have "\<forall>z \<in> set (map (\<lambda>x. raw_score (snd x))
                    (calculate_contact_importance Map.empty [] [] [] kept_two)). z = 0.6"
    unfolding m by simp
  then have same: "\<forall>x \<in> set (calculate_contact_importance Map.empty [] [] [] kept_two).
                 raw_score (snd x) = 0.6" by simp
  from equal_raw_scores_keep_default [OF two same] kept_two_result
  show ?thesis by blast
qed

lemma sum_list_nonneg_real: "(\<forall>x \<in> set xs. 0 \<le> x) \<Longrightarrow> 0 \<le> sum_list (xs :: real list)"
  by (induction xs) auto

lemma mean_nonneg: "(\<forall>x \<in> set xs. 0 \<le> x) \<Longrightarrow> 0 \<le> mean xs"
  by (simp add: mean_def sum_list_nonneg_real)

lemma list_min_Min: "ds \<noteq> [] \<Longrightarrow> list_min (hd ds) (tl ds) = Min (set ds)"
  by (cases ds) (simp_all only: list_min_def Min.set_eq_fold list.sel, simp)

lemma list_max_Max: "ds \<noteq> [] \<Longrightarrow> list_max (hd ds) (tl ds) = Max (set ds)"
  by (cases ds) (simp_all only: list_max_def Max.set_eq_fold list.sel, simp)

lemma valid_latency_nonneg:
  "\<forall>x \<in> set (map (\<lambda>r. the (response_time r)) (valid_responses rs)). 0 \<le> x"
  by (auto simp add: valid_responses_def split: option.splits)

text \<open>
  Claim C9. For a contact whose merged responses reach the configured minimum and include a
  valid one, the reply component under the default reply weights is
  0.4 (1 / (1 + avg latency / 24)) + 0.4 min(1, (reply count / date span) 10)
  + 0.2 min(1, avg length / 500), the averages and the count being taken over the valid
  responses (latency not negative) and the date span being at least one day. The merge is
  the one of the code: the responses filed under the contact itself, followed by those filed
  under each display name that the alias map sends to it.
\<close>

theorem reply_component_formula:
  assumes wt: "cfg_get cfg ''reply_time_weight'' 0.4 = 0.4"
    and wr: "cfg_get cfg ''reply_rate_weight'' 0.4 = 0.4"
    and wl: "cfg_get cfg ''reply_length_weight'' 0.2 = 0.2"
    and enough: "cfg_get cfg ''min_emails_for_pattern'' 1
                   \<le> real (length (all_responses cm response_data c))"
    and valid: "valid = valid_responses (all_responses cm response_data c)"
    and ne: "valid \<noteq> []"
    and lat: "avg_latency_h = sum_list (map (\<lambda>r. the (response_time r)) valid) / real (length valid)"
    and len: "avg_len = sum_list (map (\<lambda>r. real (response_length r)) valid) / real (length valid)"
    and span: "date_span_days
                 = max 1 (delta_days (Max (sent_date ` set valid)) (Min (sent_date ` set valid)))"
  shows "reply_component cfg cm response_data c
           = 0.4 * (1 / (1 + avg_latency_h / 24))
             + 0.4 * min 1 (real (length valid) / real_of_int date_span_days * 10)
             + 0.2 * min 1 (avg_len / 500)
       \<and> reply_count (contact_raw cfg cm response_data sender_initiations kept_stats c)
           = int (length valid)"
proof -
  have cv: "counted_valid cfg (all_responses cm response_data c) = valid"
    using enough by (simp add: counted_valid_def valid)
  have l0: "0 \<le> mean (map (\<lambda>r. the (response_time r)) valid)"
    unfolding valid by (rule mean_nonneg) (rule valid_latency_nonneg)
  have n0: "0 \<le> mean (map (\<lambda>r. real (response_length r)) valid)"
    by (rule mean_nonneg) simp
  have dne: "map sent_date valid \<noteq> []" using ne by simp
  have mn: "list_min (hd (map sent_date valid)) (tl (map sent_date valid)) = Min (sent_date ` set valid)"
    using list_min_Min [OF dne] by simp
  have mx: "list_max (hd (map sent_date valid)) (tl (map sent_date valid)) = Max (sent_date ` set valid)"
    using list_max_Max [OF dne] by simp
  have la: "mean (map (\<lambda>r. the (response_time r)) valid) = avg_latency_h"
    by (simp add: mean_def lat)
  have le: "mean (map (\<lambda>r. real (response_length r)) valid) = avg_len"
    by (simp add: mean_def len)
  have "reply_score_of_valid cfg valid
           = 0.4 * (1 / (1 + avg_latency_h / 24))
             + 0.4 * min 1 (real (length valid) / real_of_int date_span_days * 10)
             + 0.2 * min 1 (avg_len / 500)"
    unfolding reply_score_of_valid_def Let_def mn mx span [symmetric] wt wr wl
    using l0 n0 by (simp add: la le max_absorb2)
  then have a: "reply_component cfg cm response_data c
           = 0.4 * (1 / (1 + avg_latency_h / 24))
             + 0.4 * min 1 (real (length valid) / real_of_int date_span_days * 10)
             + 0.2 * min 1 (avg_len / 500)"
    using ne by (simp add: reply_component_def cv)
  have b: "reply_count (contact_raw cfg cm response_data sender_initiations kept_stats c)
           = int (length valid)"
    by (simp add: contact_raw_def cv Let_def)
  from a b show ?thesis by (rule conjI)
qed

lemma doe_valid:
  "valid_responses (all_responses doe_alias doe_replies ''jdoe@example.com'')
     = [\<lparr> response_time = Some 12, response_length = 200, sent_date = 0 \<rparr>,
        \<lparr> response_time = Some 36, response_length = 400, sent_date = 4 * us_per_day \<rparr>]"
  by code_simp

lemma doe_all_length:
  "length (all_responses doe_alias doe_replies ''jdoe@example.com'') = 3"
  by code_simp

theorem reply_component_formula_witness:
  "reply_component Map.empty doe_alias doe_replies ''jdoe@example.com'' = 0.72
   \<and> reply_count (contact_raw Map.empty doe_alias doe_replies [] [] ''jdoe@example.com'') = 2"
proof -
  let ?valid = "[\<lparr> response_time = Some 12, response_length = 200, sent_date = 0 \<rparr>,
        \<lparr> response_time = Some 36, response_length = 400, sent_date = 4 * us_per_day \<rparr>]"
  have w: "cfg_get Map.empty ''reply_time_weight'' 0.4 = 0.4"
          "cfg_get Map.empty ''reply_rate_weight'' 0.4 = 0.4"
          "cfg_get Map.empty ''reply_length_weight'' 0.2 = 0.2"
    by (simp_all add: cfg_get_def)
  have enough: "cfg_get Map.empty ''min_emails_for_pattern'' 1
                   \<le> real (length (all_responses doe_alias doe_replies ''jdoe@example.com''))"
    by (simp add: cfg_get_def doe_all_length)
  have lat: "(24::real) = sum_list (map (\<lambda>r. the (response_time r)) ?valid) / real (length ?valid)"
    by simp
  have len: "(300::real) = sum_list (map (\<lambda>r. real (response_length r)) ?valid) / real (length ?valid)"
    by simp
  have span: "(4::int) = max 1 (delta_days (Max (sent_date ` set ?valid)) (Min (sent_date ` set ?valid)))"
    by (simp add: delta_days_def us_per_day_def)
  have ne: "?valid \<noteq> []" by simp
  from reply_component_formula [OF w enough doe_valid [symmetric] ne lat len span, of "[]" "[]"]
  show ?thesis by simp
qed

section \<open>Properties of the organizer\<close>









subsection \<open>The contact map\<close>


lemma initialize_nonempty: "cm \<noteq> [] \<Longrightarrow> initialize_contact_map cm tr = cm"
  by (simp add: initialize_contact_map_def)

lemma in_dict_set: "x \<in> set (dict_set k v d) \<Longrightarrow> x = (k, v) \<or> x \<in> set d"
  by (auto simp add: dict_set_def split: if_splits)

lemma map_of_add_unmapped:
  "map_of (add_unmapped pairs cm) n
     = (case map_of cm n of Some b \<Rightarrow> Some b | None \<Rightarrow> map_of (filter valid_pair pairs) n)"
proof (induction pairs arbitrary: cm)
  case Nil
  then show ?case by (simp add: add_unmapped_def split: option.splits)
next
  case (Cons p ps)
  let ?cm' = "if valid_pair p \<and> fst p \<notin> fst ` set cm then dict_set (fst p) (snd p) cm else cm"
  have f: "add_unmapped (p # ps) cm = add_unmapped ps ?cm'"
    by (simp add: add_unmapped_def)
  have k: "(fst p \<notin> fst ` set cm) = (map_of cm (fst p) = None)"
    by (simp add: map_of_eq_None_iff)
  show ?case
    unfolding f Cons.IH k
    by (cases p) (auto simp add: map_of_dict_set split: option.splits)
qed

lemma raw_pairs_of_valid: "p \<in> set (raw_pairs_of r) \<Longrightarrow> valid_pair p"
  by (auto simp add: raw_pairs_of_def Let_def valid_pair_def has_at_lower lower_nonempty
      split: if_splits)

lemma raw_sender_pairs_valid: "p \<in> set (raw_sender_pairs tr) \<Longrightarrow> valid_pair p"
  by (auto simp add: raw_sender_pairs_def raw_pairs_of_valid)

lemma filter_valid_raw: "filter valid_pair (raw_sender_pairs tr) = raw_sender_pairs tr"
  by (simp add: raw_sender_pairs_valid)

lemma best_email_fold:
  "fold (\<lambda>email best. if match_score name email > snd best
                        then (Some email, match_score name email) else best) es (r0, s0) = (r, s)
   \<Longrightarrow> s0 \<le> s \<and> (\<forall>e \<in> set es. match_score name e \<le> s)
       \<and> ((r = r0 \<and> s = s0) \<or> (\<exists>b \<in> set es. r = Some b \<and> s = match_score name b))"
proof (induction es arbitrary: r0 s0)
  case Nil
  then show ?case by simp
next
  case (Cons e es)
  show ?case
  proof (cases "match_score name e > s0")
    case True
    with Cons.prems have "fold (\<lambda>email best. if match_score name email > snd best
                        then (Some email, match_score name email) else best) es
                        (Some e, match_score name e) = (r, s)" by simp
    from Cons.IH [OF this] True show ?thesis by auto
  next
    case False
    with Cons.prems have "fold (\<lambda>email best. if match_score name email > snd best
                        then (Some email, match_score name email) else best) es (r0, s0) = (r, s)"
      by simp
    from Cons.IH [OF this] False show ?thesis by auto
  qed
qed

lemma chosen_best:
  assumes "chosen name es = Some b"
  shows "b \<in> set es \<and> 1 \<le> match_score name b \<and> (\<forall>e \<in> set es. match_score name e \<le> match_score name b)"
proof -
  obtain r s where rs: "best_email name es = (r, s)" by (cases "best_email name es")
  from assms rs have r: "r = Some b" and s: "1 \<le> s"
    by (auto simp add: chosen_def split: option.splits if_splits)
  from best_email_fold [OF rs [unfolded best_email_def]] r
  have "(\<forall>e \<in> set es. match_score name e \<le> s) \<and> b \<in> set es \<and> s = match_score name b"
    by auto
  with s show ?thesis by auto
qed

lemma resolve_best_origin:
  "(n, b) \<in> set (resolve_best nte cm) \<Longrightarrow>
     (n, b) \<in> set cm \<or> (\<exists>es. (n, es) \<in> set nte \<and> chosen n es = Some b)"
proof (induction nte arbitrary: cm)
  case Nil
  then show ?case by (simp add: resolve_best_def)
next
  case (Cons x xs)
  let ?cm' = "case chosen (fst x) (snd x) of Some b \<Rightarrow> dict_set (fst x) b cm | None \<Rightarrow> cm"
  have "resolve_best (x # xs) cm = resolve_best xs ?cm'" by (simp add: resolve_best_def)
  with Cons.prems have "(n, b) \<in> set (resolve_best xs ?cm')" by simp
  from Cons.IH [OF this] show ?case
  proof
    assume "(n, b) \<in> set ?cm'"
    then show ?thesis
      by (cases x) (auto dest: in_dict_set split: option.splits)
  next
    assume "\<exists>es. (n, es) \<in> set xs \<and> chosen n es = Some b"
    then show ?thesis by auto
  qed
qed

lemma map_of_add_direct_pairs:
  "map_of (add_direct_pairs pairs cm) n
     = (case map_of (rev (filter valid_pair pairs)) n of Some e \<Rightarrow> Some e | None \<Rightarrow> map_of cm n)"
proof (induction pairs arbitrary: cm)
  case Nil
  then show ?case by (simp add: add_direct_pairs_def)
next
  case (Cons p ps)
  obtain k v where p: "p = (k, v)" by (cases p)
  let ?cm' = "if valid_pair p then dict_set k v cm else cm"
  have f: "add_direct_pairs (p # ps) cm = add_direct_pairs ps ?cm'"
    by (simp add: add_direct_pairs_def p valid_pair_def)
  show ?case
  proof (cases "valid_pair p")
    case True
    have r: "map_of (rev (filter valid_pair (p # ps))) n
               = (case map_of (rev (filter valid_pair ps)) n of Some e \<Rightarrow> Some e
                  | None \<Rightarrow> if n = k then Some v else None)"
      using True by (simp add: p map_add_def split: option.splits)
    show ?thesis
      unfolding f Cons.IH r using True
      by (simp add: map_of_dict_set split: option.splits)
  next
    case False
    then show ?thesis unfolding f Cons.IH by simp
  qed
qed

lemma map_of_only:
  assumes a: "(n, e) \<in> set ps" and b: "\<forall>e'. (n, e') \<in> set ps \<longrightarrow> e' = e"
  shows "map_of ps n = Some e"
proof -
  from a have "n \<in> fst ` set ps" by force
  then have "map_of ps n \<noteq> None" by (simp add: map_of_eq_None_iff)
  then obtain e' where e': "map_of ps n = Some e'" by auto
  then have "(n, e') \<in> set ps" by (rule map_of_SomeD)
  with b e' show ?thesis by simp
qed

lemma pairs_handle_error: "name_email_pairs (handle_error st) = name_email_pairs st"
  by (simp add: handle_error_def)

lemma pairs_track_message:
  "name_email_pairs (track_message p now ob i who raw n m d st) = name_email_pairs st"
  by (cases d) (simp add: track_message_def Let_def pairs_handle_error split: option.splits)

lemma scan_seen_pairs_grow:
  "set (name_email_pairs st) \<subseteq> set (name_email_pairs (scan_seen cm p now ob st))"
  by (auto simp add: scan_seen_def Let_def pairs_handle_error pairs_track_message
      split: option.splits prod.splits)

lemma scan_item_pairs_grow:
  "set (name_email_pairs st) \<subseteq> set (name_email_pairs (scan_item cm p now it st))"
proof (cases it)
  case FetchRaises
  then show ?thesis by (simp add: scan_item_def pairs_handle_error)
next
  case (Seen ob)
  have "name_email_pairs (st\<lparr> last_item := Some ob \<rparr>) = name_email_pairs st" by simp
  with scan_seen_pairs_grow [of "st\<lparr> last_item := Some ob \<rparr>" cm p now ob]
  show ?thesis by (simp add: scan_item_def Seen)
qed

lemma fold_pairs_grow:
  "set (name_email_pairs st) \<subseteq> set (name_email_pairs (fold (scan_item cm p now) items st))"
proof (induction items arbitrary: st)
  case Nil
  then show ?case by simp
next
  case (Cons x xs)
  from scan_item_pairs_grow [of st cm p now x] Cons.IH [of "scan_item cm p now x st"]
  show ?case by auto
qed

lemma read_identity_named:
  assumes "o_class ob = Got 43" "o_sender_name ob = Got (Some name)"
    "o_sender_email ob = Got (Some addr)" "read_identity ob \<noteq> None"
  shows "\<exists>e. read_identity ob = Some (43, e, Some name, Some addr)"
  using assms
  by (auto simp add: read_identity_def raw_get_def safe_get_Got split: Option.bind_splits)

lemma scan_seen_pair_hit:
  assumes "o_class ob = Got 43" "o_sender_name ob = Got (Some name)"
    "o_sender_email ob = Got (Some addr)" "read_identity ob \<noteq> None"
    "name \<noteq> []" "has_at addr"
  shows "(lower name, lower addr) \<in> set (name_email_pairs (scan_seen cm p now ob st))"
proof -
  from read_identity_named [OF assms(1,2,3,4)] obtain e
    where idn: "read_identity ob = Some (43, e, Some name, Some addr)" by blast
  have ane: "addr \<noteq> []" using assms(6) by (auto simp add: has_at_def)
  show ?thesis
    using assms(5,6) ane
    by (auto simp add: scan_seen_def idn Let_def truthy_def pairs_handle_error pairs_track_message
        split: option.splits)
qed

lemma fold_pair_hit:
  assumes "Seen ob \<in> set items" "o_class ob = Got 43" "o_sender_name ob = Got (Some name)"
    "o_sender_email ob = Got (Some addr)" "read_identity ob \<noteq> None" "name \<noteq> []" "has_at addr"
    and "\<not> aborted (fold (scan_item cm p now) items st)"
  shows "(lower name, lower addr) \<in> set (name_email_pairs (fold (scan_item cm p now) items st))"
  using assms(1,8)
proof (induction items arbitrary: st)
  case Nil
  then show ?case by simp
next
  case (Cons x xs)
  have live: "\<not> aborted st"
  proof
    assume "aborted st"
    then have "fold (scan_item cm p now) (x # xs) st = st" by (rule fold_aborted)
    with Cons.prems(2) \<open>aborted st\<close> show False by simp
  qed
  show ?case
  proof (cases "x = Seen ob")
    case True
    have "(lower name, lower addr) \<in> set (name_email_pairs (scan_item cm p now x st))"
      using live scan_seen_pair_hit [OF assms(2,3,4,5,6,7), of cm p now "st\<lparr> last_item := Some ob \<rparr>"]
      by (simp add: scan_item_def True)
    with fold_pairs_grow [of "scan_item cm p now x st" cm p now xs] show ?thesis by auto
  next
    case False
    with Cons.prems(1) have "Seen ob \<in> set xs" by simp
    moreover have "\<not> aborted (fold (scan_item cm p now) xs (scan_item cm p now x st))"
      using Cons.prems(2) by simp
    ultimately show ?thesis using Cons.IH by simp
  qed
qed

end
